theory Spec2Isabelle
  imports Main "HOL-Library.Word" "HOL-Library.FSet"
begin

section \<open>RememorySet: a set stored in a named shared-memory segment\<close>

text \<open>
  The development embeds \<^verbatim>\<open>src/rememory/sharedSet.py\<close>. The class keeps one Python
  object, meant to be a \<^verbatim>\<open>set\<close>, pickled inside a
  \<^verbatim>\<open>multiprocessing.shared_memory.SharedMemory\<close> block. Every method reads the whole
  block, unpickles it, calls a method of the object it got and pickles the object back.

  What the class calls but does not define is a parameter \<open>P\<close>, a record of functions.
  \<^item> \<^verbatim>\<open>pickle.dumps\<close> and \<^verbatim>\<open>pickle.loads\<close>. The second returns an object, which need
    not be a set, or raises.
  \<^item> What the methods that the class calls on the object it has read do when that
    object is not a set: the fields \<open>other_\<dots>\<close>. On a set they are the methods of
    Python's \<^verbatim>\<open>set\<close>, defined here.
  \<^item> \<^verbatim>\<open>set.pop\<close> takes an arbitrary element: the choice is a parameter \<open>pick\<close>.

  The shared-memory namespace of the operating system is an explicit state: every block
  ever created, and the binding of names to blocks. A \<^verbatim>\<open>SharedMemory\<close> object maps one
  block; unlinking a name leaves the block mapped by the objects that hold it. A block
  has exactly the size asked for, as on Linux.

  Python sets are finite, so a set value is an \<open>'a fset\<close>. An exception is a value of
  \<open>py_error\<close>; a method returns its outcome together with the handle and the state as
  it leaves them. A method that waits for a lock for ever has the outcome \<open>None\<close>.
\<close>

subsection \<open>Bytes, exceptions, objects\<close>

type_synonym byte = "8 word"

datatype py_error =
    FileNotFoundError
  | FileExistsError
  | ValueError
  | TypeError
  | KeyError
  | IndexError
  | AttributeError
  | UnpicklingError
  | SystemExit
  | KeyboardInterrupt

text \<open>
  \<^verbatim>\<open>isinstance(e, Exception)\<close>: \<^verbatim>\<open>SystemExit\<close> and \<^verbatim>\<open>KeyboardInterrupt\<close> derive from
  \<^verbatim>\<open>BaseException\<close> only, the others from \<^verbatim>\<open>Exception\<close>.
\<close>

fun is_Exception :: "py_error \<Rightarrow> bool" where
  "is_Exception SystemExit = False"
| "is_Exception KeyboardInterrupt = False"
| "is_Exception e = True"

text \<open>An object read from a block: a set, or an object of another class.\<close>

datatype ('a, 'o) py_obj = SetObj "'a fset" | OtherObj 'o

subsection \<open>The shared-memory provider\<close>

record os_state =
  segs :: "byte list list"
  names :: "string \<rightharpoonup> nat"

record shm_obj =
  seg_id :: nat
  mapped :: bool

record handle =
  h_name :: string
  h_size :: int
  h_shm :: "shm_obj option"

text \<open>
  The bytes of a block. An object only ever holds the number of a block that was
  created; any other number stands for no bytes.
\<close>

definition block :: "os_state \<Rightarrow> nat \<Rightarrow> byte list" where
  "block os i = (if i < length (segs os) then segs os ! i else [])"

text \<open>\<^verbatim>\<open>SharedMemory(name=name)\<close>: attach to the block bound to the name.\<close>

definition SharedMemory_attach :: "string \<Rightarrow> os_state \<Rightarrow> py_error + shm_obj" where
  "SharedMemory_attach name os =
     (case names os name of
        None \<Rightarrow> Inl FileNotFoundError
      | Some sid \<Rightarrow> Inr \<lparr>seg_id = sid, mapped = True\<rparr>)"

text \<open>
  \<^verbatim>\<open>SharedMemory(name=name, create=True, size=size)\<close>: the size is checked first, then
  the name is created exclusively; the new block is filled with zero bytes.
\<close>

definition SharedMemory_create ::
  "string \<Rightarrow> int \<Rightarrow> os_state \<Rightarrow> py_error + (shm_obj \<times> os_state)" where
  "SharedMemory_create name sz os =
     (if sz \<le> 0 then Inl ValueError
      else if names os name \<noteq> None then Inl FileExistsError
      else Inr (\<lparr>seg_id = length (segs os), mapped = True\<rparr>,
                os\<lparr>segs := segs os @ [replicate (nat sz) 0],
                   names := (names os)(name \<mapsto> length (segs os))\<rparr>))"

text \<open>\<^verbatim>\<open>shm.close()\<close> drops the mapping of this object; \<^verbatim>\<open>shm.size\<close> stays readable.\<close>

definition shm_close :: "shm_obj \<Rightarrow> shm_obj" where
  "shm_close s = s\<lparr>mapped := False\<rparr>"

text \<open>\<^verbatim>\<open>shm.unlink()\<close> removes the name, whichever block it is bound to.\<close>

definition shm_unlink :: "string \<Rightarrow> os_state \<Rightarrow> py_error + os_state" where
  "shm_unlink name os =
     (if names os name = None then Inl FileNotFoundError
      else Inr (os\<lparr>names := (names os)(name := None)\<rparr>))"

definition shm_size :: "shm_obj \<Rightarrow> os_state \<Rightarrow> nat" where
  "shm_size s os = length (block os (seg_id s))"

subsection \<open>What Python provides\<close>

text \<open>
  The methods that the class calls on the object it has read, grouped by what they
  return: the methods that change the object and return nothing, the methods that build
  a new object, and the tests against another collection.
\<close>

datatype 'a mutation =
    M_add 'a
  | M_remove 'a
  | M_discard 'a
  | M_update "'a fset list"
  | M_intersection_update "'a fset list"
  | M_difference_update "'a fset list"
  | M_symmetric_difference_update "'a fset"

datatype 'a derivation =
    D_copy
  | D_union "'a fset list"
  | D_intersection "'a fset list"
  | D_difference "'a fset list"
  | D_symmetric_difference "'a fset"

datatype test_kind = Isdisjoint | Issubset | Issuperset

text \<open>
  The right-hand operand of a test or of a comparison: a Python set, another handle, a
  list (any other iterable), or an object that cannot be iterated.
\<close>

datatype 'a operand = PySet "'a fset" | Shared handle | PyList "'a list" | NotIterable

text \<open>
  A lock is keyed by the name of its handle. An event is the acquisition of a lock, a
  read of the stored data under it, or its release.
\<close>

datatype event = Acquire string | Snapshot string | Release string

record ('a, 'o) python =
  pickle_dumps :: "('a, 'o) py_obj \<Rightarrow> byte list"
  pickle_loads :: "byte list \<Rightarrow> py_error + ('a, 'o) py_obj"
  other_truth :: "'o \<Rightarrow> bool"
  other_mutate :: "'a mutation \<Rightarrow> 'o \<Rightarrow> py_error + 'o"
  other_pop :: "'o \<Rightarrow> py_error + 'a \<times> 'o"
  other_contains :: "'a \<Rightarrow> 'o \<Rightarrow> py_error + bool"
  other_len :: "'o \<Rightarrow> py_error + nat"
  other_iter :: "'o \<Rightarrow> py_error + 'a fset"
  other_derive :: "'a derivation \<Rightarrow> 'o \<Rightarrow> py_error + ('a, 'o) py_obj"
  other_test ::
    "test_kind \<Rightarrow> 'o \<Rightarrow> handle \<Rightarrow> os_state \<Rightarrow> 'a operand
       \<Rightarrow> (py_error + bool) option \<times> event list"
  other_eq :: "('a, 'o) py_obj \<Rightarrow> ('a, 'o) py_obj \<Rightarrow> bool"

text \<open>The methods of Python's \<^verbatim>\<open>set\<close>.\<close>

fun set_mutate :: "'a mutation \<Rightarrow> 'a fset \<Rightarrow> py_error + 'a fset" where
  "set_mutate (M_add x) s = Inr (finsert x s)"
| "set_mutate (M_remove x) s = (if x |\<in>| s then Inr (s |-| {|x|}) else Inl KeyError)"
| "set_mutate (M_discard x) s = Inr (s |-| {|x|})"
| "set_mutate (M_update others) s = Inr (foldl (|\<union>|) s others)"
| "set_mutate (M_intersection_update others) s = Inr (foldl (|\<inter>|) s others)"
| "set_mutate (M_difference_update others) s = Inr (foldl (|-|) s others)"
| "set_mutate (M_symmetric_difference_update other) s = Inr ((s |-| other) |\<union>| (other |-| s))"

fun set_derive :: "'a derivation \<Rightarrow> 'a fset \<Rightarrow> 'a fset" where
  "set_derive D_copy s = s"
| "set_derive (D_union others) s = foldl (|\<union>|) s others"
| "set_derive (D_intersection others) s = foldl (|\<inter>|) s others"
| "set_derive (D_difference others) s = foldl (|-|) s others"
| "set_derive (D_symmetric_difference other) s = (s |-| other) |\<union>| (other |-| s)"

fun set_test :: "test_kind \<Rightarrow> 'a fset \<Rightarrow> 'a fset \<Rightarrow> bool" where
  "set_test Isdisjoint s t = (s |\<inter>| t = {||})"
| "set_test Issubset s t = (s |\<subseteq>| t)"
| "set_test Issuperset s t = (t |\<subseteq>| s)"

text \<open>The same calls on the object that was read, whatever its class.\<close>

definition py_mutate ::
  "('a, 'o) python \<Rightarrow> 'a mutation \<Rightarrow> ('a, 'o) py_obj \<Rightarrow> py_error + ('a, 'o) py_obj" where
  "py_mutate P m data =
     (case data of
        SetObj s \<Rightarrow> map_sum (\<lambda>e. e) SetObj (set_mutate m s)
      | OtherObj x \<Rightarrow> map_sum (\<lambda>e. e) OtherObj (other_mutate P m x))"

text \<open>\<^verbatim>\<open>not data\<close> is true of the empty set.\<close>

definition py_truth :: "('a, 'o) python \<Rightarrow> ('a, 'o) py_obj \<Rightarrow> bool" where
  "py_truth P data = (case data of SetObj s \<Rightarrow> s \<noteq> {||} | OtherObj x \<Rightarrow> other_truth P x)"

definition py_pop ::
  "('a, 'o) python \<Rightarrow> ('a fset \<Rightarrow> 'a) \<Rightarrow> ('a, 'o) py_obj
     \<Rightarrow> py_error + 'a \<times> ('a, 'o) py_obj" where
  "py_pop P pick data =
     (case data of
        SetObj s \<Rightarrow>
          if s = {||} then Inl KeyError else Inr (pick s, SetObj (s |-| {|pick s|}))
      | OtherObj x \<Rightarrow> map_sum (\<lambda>e. e) (\<lambda>(r, y). (r, OtherObj y)) (other_pop P x))"

definition py_contains :: "('a, 'o) python \<Rightarrow> 'a \<Rightarrow> ('a, 'o) py_obj \<Rightarrow> py_error + bool" where
  "py_contains P item data =
     (case data of SetObj s \<Rightarrow> Inr (item |\<in>| s) | OtherObj x \<Rightarrow> other_contains P item x)"

definition py_len :: "('a, 'o) python \<Rightarrow> ('a, 'o) py_obj \<Rightarrow> py_error + nat" where
  "py_len P data = (case data of SetObj s \<Rightarrow> Inr (fcard s) | OtherObj x \<Rightarrow> other_len P x)"

text \<open>\<^verbatim>\<open>iter(data)\<close>: the elements that the iterator yields, in no fixed order.\<close>

definition py_iter :: "('a, 'o) python \<Rightarrow> ('a, 'o) py_obj \<Rightarrow> py_error + 'a fset" where
  "py_iter P data = (case data of SetObj s \<Rightarrow> Inr s | OtherObj x \<Rightarrow> other_iter P x)"

definition py_derive ::
  "('a, 'o) python \<Rightarrow> 'a derivation \<Rightarrow> ('a, 'o) py_obj \<Rightarrow> py_error + ('a, 'o) py_obj" where
  "py_derive P d data =
     (case data of
        SetObj s \<Rightarrow> Inr (SetObj (set_derive d s))
      | OtherObj x \<Rightarrow> other_derive P d x)"

text \<open>\<^verbatim>\<open>data == other\<close>: two sets are equal when they have the same elements.\<close>

definition py_eq :: "('a, 'o) python \<Rightarrow> ('a, 'o) py_obj \<Rightarrow> ('a, 'o) py_obj \<Rightarrow> bool" where
  "py_eq P a b =
     (case (a, b) of
        (SetObj s, SetObj t) \<Rightarrow> s = t
      | _ \<Rightarrow> other_eq P a b)"

subsection \<open>The read and write protocols\<close>

text \<open>\<^verbatim>\<open>bytes.rstrip(b"\x00")\<close>.\<close>

definition rstrip0 :: "byte list \<Rightarrow> byte list" where
  "rstrip0 bs = rev (dropWhile (\<lambda>b. b = 0) (rev bs))"

text \<open>
  \<^verbatim>\<open>_readData\<close> returns what \<^verbatim>\<open>pickle.loads\<close> returns, whatever its class, and the
  empty set when it raises an \<^verbatim>\<open>Exception\<close>; any other exception goes on to the
  caller. A closed object has no buffer to read.
\<close>

definition readData ::
  "('a, 'o) python \<Rightarrow> handle \<Rightarrow> os_state \<Rightarrow> py_error + ('a, 'o) py_obj" where
  "readData P h os =
     (case h_shm h of
        None \<Rightarrow> Inr (SetObj {||})
      | Some s \<Rightarrow>
          if \<not> mapped s then Inl TypeError
          else let raw = rstrip0 (block os (seg_id s)) in
            if raw = [] then Inr (SetObj {||})
            else (case pickle_loads P raw of
                    Inr obj \<Rightarrow> Inr obj
                  | Inl e \<Rightarrow> if is_Exception e then Inr (SetObj {||}) else Inl e))"

text \<open>
  The two slice assignments at the end of \<^verbatim>\<open>_writeData\<close>: the encoding, then zero
  bytes up to the size of the block. A closed object has no buffer to assign to.
\<close>

definition store_buf ::
  "handle \<Rightarrow> os_state \<Rightarrow> shm_obj \<Rightarrow> byte list \<Rightarrow> (py_error + unit) \<times> handle \<times> os_state" where
  "store_buf h os s encoded =
     (if \<not> mapped s then (Inl TypeError, h, os)
      else (Inr (), h,
            os\<lparr>segs := (segs os)[seg_id s :=
                  encoded @ replicate (shm_size s os - length encoded) 0]\<rparr>))"

definition writeData ::
  "('a, 'o) python \<Rightarrow> handle \<Rightarrow> os_state \<Rightarrow> ('a, 'o) py_obj
     \<Rightarrow> (py_error + unit) \<times> handle \<times> os_state" where
  "writeData P h os data =
     (case h_shm h of
        None \<Rightarrow> (Inr (), h, os)
      | Some s \<Rightarrow>
          let encoded = pickle_dumps P data in
          if length encoded > shm_size s os then
            let newSize = max (length encoded) (shm_size s os * 2);
                h1 = h\<lparr>h_shm := Some (shm_close s)\<rparr>
            in (case shm_unlink (h_name h) os of
                  Inl e \<Rightarrow> (Inl e, h1, os)
                | Inr os1 \<Rightarrow>
                    (case SharedMemory_create (h_name h) (int newSize) os1 of
                       Inl e \<Rightarrow> (Inl e, h1, os1)
                     | Inr (s2, os2) \<Rightarrow> store_buf (h1\<lparr>h_shm := Some s2\<rparr>) os2 s2 encoded))
          else store_buf h os s encoded)"

subsection \<open>Construction\<close>

text \<open>
  \<^verbatim>\<open>__init__\<close> attaches, and creates the block when the attach raises
  \<^verbatim>\<open>FileNotFoundError\<close>; no other exception is caught. The create is a second system
  call: \<open>env\<close> is what other processes did to the namespace between the two calls
  (the identity when the process runs alone). The lock object is built last.
\<close>

definition init_raced ::
  "(os_state \<Rightarrow> os_state) \<Rightarrow> ('a, 'o) python \<Rightarrow> string \<Rightarrow> int \<Rightarrow> os_state
     \<Rightarrow> (py_error + handle) \<times> os_state" where
  "init_raced env P name sz os =
     (case SharedMemory_attach name os of
        Inr s \<Rightarrow> (Inr \<lparr>h_name = name, h_size = sz, h_shm = Some s\<rparr>, os)
      | Inl e \<Rightarrow>
          if e = FileNotFoundError then
            (case SharedMemory_create name sz (env os) of
               Inl e' \<Rightarrow> (Inl e', env os)
             | Inr (s, os1) \<Rightarrow>
                 (case writeData P \<lparr>h_name = name, h_size = sz, h_shm = Some s\<rparr> os1
                         (SetObj {||}) of
                    (Inl e', h', os') \<Rightarrow> (Inl e', os')
                  | (Inr u, h', os') \<Rightarrow> (Inr h', os')))
          else (Inl e, os))"

definition init ::
  "('a, 'o) python \<Rightarrow> string \<Rightarrow> int \<Rightarrow> os_state \<Rightarrow> (py_error + handle) \<times> os_state" where
  "init P name sz os = init_raced (\<lambda>s. s) P name sz os"

subsection \<open>Mutating methods\<close>

text \<open>
  Each method is one \<^verbatim>\<open>with self._lock:\<close> block. A method that takes no other lock
  inside it always gets its lock when the process runs alone, and taking and releasing
  it changes nothing of the stored data: these methods are functions of the handle and
  the shared-memory state. They return the outcome with the handle and the state as
  the call leaves them, also when it raises. The operands of the methods that change
  or build a set are taken to be ordinary sets; \<^verbatim>\<open>*others\<close> is a list of them, folded
  from the left as Python does.
\<close>

definition add ::
  "('a, 'o) python \<Rightarrow> handle \<Rightarrow> os_state \<Rightarrow> 'a \<Rightarrow> (py_error + unit) \<times> handle \<times> os_state" where
  "add P h os item =
     (case readData P h os of
        Inl e \<Rightarrow> (Inl e, h, os)
      | Inr data \<Rightarrow>
          (case py_mutate P (M_add item) data of
             Inl e \<Rightarrow> (Inl e, h, os)
           | Inr data' \<Rightarrow> writeData P h os data'))"

definition remove ::
  "('a, 'o) python \<Rightarrow> handle \<Rightarrow> os_state \<Rightarrow> 'a \<Rightarrow> (py_error + unit) \<times> handle \<times> os_state" where
  "remove P h os item =
     (case readData P h os of
        Inl e \<Rightarrow> (Inl e, h, os)
      | Inr data \<Rightarrow>
          (case py_mutate P (M_remove item) data of
             Inl e \<Rightarrow> (Inl e, h, os)
           | Inr data' \<Rightarrow> writeData P h os data'))"

definition discard ::
  "('a, 'o) python \<Rightarrow> handle \<Rightarrow> os_state \<Rightarrow> 'a \<Rightarrow> (py_error + unit) \<times> handle \<times> os_state" where
  "discard P h os item =
     (case readData P h os of
        Inl e \<Rightarrow> (Inl e, h, os)
      | Inr data \<Rightarrow>
          (case py_mutate P (M_discard item) data of
             Inl e \<Rightarrow> (Inl e, h, os)
           | Inr data' \<Rightarrow> writeData P h os data'))"

definition pop ::
  "('a, 'o) python \<Rightarrow> ('a fset \<Rightarrow> 'a) \<Rightarrow> handle \<Rightarrow> os_state
     \<Rightarrow> (py_error + 'a) \<times> handle \<times> os_state" where
  "pop P pick h os =
     (case readData P h os of
        Inl e \<Rightarrow> (Inl e, h, os)
      | Inr data \<Rightarrow>
          if \<not> py_truth P data then (Inl KeyError, h, os)
          else (case py_pop P pick data of
                  Inl e \<Rightarrow> (Inl e, h, os)
                | Inr (result, data') \<Rightarrow>
                    (case writeData P h os data' of
                       (Inl e, h', os') \<Rightarrow> (Inl e, h', os')
                     | (Inr u, h', os') \<Rightarrow> (Inr result, h', os'))))"

definition clear ::
  "('a, 'o) python \<Rightarrow> handle \<Rightarrow> os_state \<Rightarrow> (py_error + unit) \<times> handle \<times> os_state" where
  "clear P h os = writeData P h os (SetObj {||})"

definition update ::
  "('a, 'o) python \<Rightarrow> handle \<Rightarrow> os_state \<Rightarrow> 'a fset list
     \<Rightarrow> (py_error + unit) \<times> handle \<times> os_state" where
  "update P h os others =
     (case readData P h os of
        Inl e \<Rightarrow> (Inl e, h, os)
      | Inr data \<Rightarrow>
          (case py_mutate P (M_update others) data of
             Inl e \<Rightarrow> (Inl e, h, os)
           | Inr data' \<Rightarrow> writeData P h os data'))"

definition intersectionUpdate ::
  "('a, 'o) python \<Rightarrow> handle \<Rightarrow> os_state \<Rightarrow> 'a fset list
     \<Rightarrow> (py_error + unit) \<times> handle \<times> os_state" where
  "intersectionUpdate P h os others =
     (case readData P h os of
        Inl e \<Rightarrow> (Inl e, h, os)
      | Inr data \<Rightarrow>
          (case py_mutate P (M_intersection_update others) data of
             Inl e \<Rightarrow> (Inl e, h, os)
           | Inr data' \<Rightarrow> writeData P h os data'))"

definition differenceUpdate ::
  "('a, 'o) python \<Rightarrow> handle \<Rightarrow> os_state \<Rightarrow> 'a fset list
     \<Rightarrow> (py_error + unit) \<times> handle \<times> os_state" where
  "differenceUpdate P h os others =
     (case readData P h os of
        Inl e \<Rightarrow> (Inl e, h, os)
      | Inr data \<Rightarrow>
          (case py_mutate P (M_difference_update others) data of
             Inl e \<Rightarrow> (Inl e, h, os)
           | Inr data' \<Rightarrow> writeData P h os data'))"

definition symmetricDifferenceUpdate ::
  "('a, 'o) python \<Rightarrow> handle \<Rightarrow> os_state \<Rightarrow> 'a fset
     \<Rightarrow> (py_error + unit) \<times> handle \<times> os_state" where
  "symmetricDifferenceUpdate P h os other =
     (case readData P h os of
        Inl e \<Rightarrow> (Inl e, h, os)
      | Inr data \<Rightarrow>
          (case py_mutate P (M_symmetric_difference_update other) data of
             Inl e \<Rightarrow> (Inl e, h, os)
           | Inr data' \<Rightarrow> writeData P h os data'))"

subsection \<open>Read-only methods\<close>

text \<open>
  They call \<^verbatim>\<open>_readData\<close> only, so they return a value and leave every state as it is.
\<close>

definition contains :: "('a, 'o) python \<Rightarrow> handle \<Rightarrow> os_state \<Rightarrow> 'a \<Rightarrow> py_error + bool" where
  "contains P h os item =
     (case readData P h os of Inl e \<Rightarrow> Inl e | Inr data \<Rightarrow> py_contains P item data)"

definition len :: "('a, 'o) python \<Rightarrow> handle \<Rightarrow> os_state \<Rightarrow> py_error + nat" where
  "len P h os = (case readData P h os of Inl e \<Rightarrow> Inl e | Inr data \<Rightarrow> py_len P data)"

text \<open>\<^verbatim>\<open>__iter__\<close> iterates over the snapshot: the elements it yields are returned.\<close>

definition iter :: "('a, 'o) python \<Rightarrow> handle \<Rightarrow> os_state \<Rightarrow> py_error + 'a fset" where
  "iter P h os = (case readData P h os of Inl e \<Rightarrow> Inl e | Inr data \<Rightarrow> py_iter P data)"

definition copy :: "('a, 'o) python \<Rightarrow> handle \<Rightarrow> os_state \<Rightarrow> py_error + ('a, 'o) py_obj" where
  "copy P h os =
     (case readData P h os of Inl e \<Rightarrow> Inl e | Inr data \<Rightarrow> py_derive P D_copy data)"

definition union_of ::
  "('a, 'o) python \<Rightarrow> handle \<Rightarrow> os_state \<Rightarrow> 'a fset list \<Rightarrow> py_error + ('a, 'o) py_obj" where
  "union_of P h os others =
     (case readData P h os of
        Inl e \<Rightarrow> Inl e
      | Inr data \<Rightarrow> py_derive P (D_union others) data)"

definition intersection ::
  "('a, 'o) python \<Rightarrow> handle \<Rightarrow> os_state \<Rightarrow> 'a fset list \<Rightarrow> py_error + ('a, 'o) py_obj" where
  "intersection P h os others =
     (case readData P h os of
        Inl e \<Rightarrow> Inl e
      | Inr data \<Rightarrow> py_derive P (D_intersection others) data)"

definition difference ::
  "('a, 'o) python \<Rightarrow> handle \<Rightarrow> os_state \<Rightarrow> 'a fset list \<Rightarrow> py_error + ('a, 'o) py_obj" where
  "difference P h os others =
     (case readData P h os of
        Inl e \<Rightarrow> Inl e
      | Inr data \<Rightarrow> py_derive P (D_difference others) data)"

definition symmetricDifference ::
  "('a, 'o) python \<Rightarrow> handle \<Rightarrow> os_state \<Rightarrow> 'a fset \<Rightarrow> py_error + ('a, 'o) py_obj" where
  "symmetricDifference P h os other =
     (case readData P h os of
        Inl e \<Rightarrow> Inl e
      | Inr data \<Rightarrow> py_derive P (D_symmetric_difference other) data)"

text \<open>\<^verbatim>\<open>__repr__\<close> formats the name and the object it reads (without taking the lock).\<close>

definition repr_data ::
  "('a, 'o) python \<Rightarrow> handle \<Rightarrow> os_state \<Rightarrow> py_error + ('a, 'o) py_obj" where
  "repr_data P h os = readData P h os"

definition or_op ::
  "('a, 'o) python \<Rightarrow> handle \<Rightarrow> os_state \<Rightarrow> 'a fset \<Rightarrow> py_error + ('a, 'o) py_obj" where
  "or_op P h os other = union_of P h os [other]"

definition and_op ::
  "('a, 'o) python \<Rightarrow> handle \<Rightarrow> os_state \<Rightarrow> 'a fset \<Rightarrow> py_error + ('a, 'o) py_obj" where
  "and_op P h os other = intersection P h os [other]"

definition sub_op ::
  "('a, 'o) python \<Rightarrow> handle \<Rightarrow> os_state \<Rightarrow> 'a fset \<Rightarrow> py_error + ('a, 'o) py_obj" where
  "sub_op P h os other = difference P h os [other]"

definition xor_op ::
  "('a, 'o) python \<Rightarrow> handle \<Rightarrow> os_state \<Rightarrow> 'a fset \<Rightarrow> py_error + ('a, 'o) py_obj" where
  "xor_op P h os other = symmetricDifference P h os other"

subsection \<open>Tests and comparisons\<close>

text \<open>
  The operand of a test or of a comparison may be another handle. \<^verbatim>\<open>__eq__\<close> then
  takes the lock of the operand inside its own \<^verbatim>\<open>with\<close> block, and the tests iterate
  over the operand, which calls its \<^verbatim>\<open>__iter__\<close> and takes its lock there. So these
  methods return, with their outcome, the lock events and the reads of the stored data
  in the order the method performs them. The two locks of two handles of one name are
  the same lock, and a lock that the process holds is not given to it again: the method
  waits for ever, its outcome is \<open>None\<close> and its last event the acquisition it waits for.
\<close>

text \<open>\<^verbatim>\<open>iter(other)\<close> under the lock of \<open>h\<close>: the elements of the operand.\<close>

definition iterate_other ::
  "('a, 'o) python \<Rightarrow> handle \<Rightarrow> os_state \<Rightarrow> 'a operand
     \<Rightarrow> (py_error + 'a fset) option \<times> event list" where
  "iterate_other P h os other =
     (case other of
        PySet s \<Rightarrow> (Some (Inr s), [])
      | PyList xs \<Rightarrow> (Some (Inr (fset_of_list xs)), [])
      | NotIterable \<Rightarrow> (Some (Inl TypeError), [])
      | Shared other_h \<Rightarrow>
          if h_name other_h = h_name h then (None, [Acquire (h_name other_h)])
          else (Some (iter P other_h os),
                [Acquire (h_name other_h), Snapshot (h_name other_h),
                 Release (h_name other_h)]))"

text \<open>
  \<^verbatim>\<open>data.isdisjoint(other)\<close>, \<^verbatim>\<open>data.issubset(other)\<close>, \<^verbatim>\<open>data.issuperset(other)\<close>: a
  set iterates over the operand and tests.
\<close>

definition py_test ::
  "('a, 'o) python \<Rightarrow> test_kind \<Rightarrow> ('a, 'o) py_obj \<Rightarrow> handle \<Rightarrow> os_state \<Rightarrow> 'a operand
     \<Rightarrow> (py_error + bool) option \<times> event list" where
  "py_test P t data h os other =
     (case data of
        SetObj s \<Rightarrow>
          (case iterate_other P h os other of
             (None, evs) \<Rightarrow> (None, evs)
           | (Some (Inl e), evs) \<Rightarrow> (Some (Inl e), evs)
           | (Some (Inr u), evs) \<Rightarrow> (Some (Inr (set_test t s u)), evs))
      | OtherObj x \<Rightarrow> other_test P t x h os other)"

text \<open>The common shape of \<^verbatim>\<open>isDisjoint\<close>, \<^verbatim>\<open>isSubset\<close> and \<^verbatim>\<open>isSuperset\<close>.\<close>

definition test_traced ::
  "('a, 'o) python \<Rightarrow> test_kind \<Rightarrow> handle \<Rightarrow> os_state \<Rightarrow> 'a operand
     \<Rightarrow> (py_error + bool) option \<times> event list" where
  "test_traced P t h os other =
     (case readData P h os of
        Inl e \<Rightarrow> (Some (Inl e), [Acquire (h_name h), Snapshot (h_name h), Release (h_name h)])
      | Inr data \<Rightarrow>
          (case py_test P t data h os other of
             (None, evs) \<Rightarrow> (None, [Acquire (h_name h), Snapshot (h_name h)] @ evs)
           | (Some r, evs) \<Rightarrow>
               (Some r, [Acquire (h_name h), Snapshot (h_name h)] @ evs @ [Release (h_name h)])))"

definition isDisjoint_traced ::
  "('a, 'o) python \<Rightarrow> handle \<Rightarrow> os_state \<Rightarrow> 'a operand
     \<Rightarrow> (py_error + bool) option \<times> event list" where
  "isDisjoint_traced P h os other = test_traced P Isdisjoint h os other"

definition isSubset_traced ::
  "('a, 'o) python \<Rightarrow> handle \<Rightarrow> os_state \<Rightarrow> 'a operand
     \<Rightarrow> (py_error + bool) option \<times> event list" where
  "isSubset_traced P h os other = test_traced P Issubset h os other"

definition isSuperset_traced ::
  "('a, 'o) python \<Rightarrow> handle \<Rightarrow> os_state \<Rightarrow> 'a operand
     \<Rightarrow> (py_error + bool) option \<times> event list" where
  "isSuperset_traced P h os other = test_traced P Issuperset h os other"

text \<open>
  \<^verbatim>\<open>__eq__\<close> tests the class of its operand first: a Python set, another handle, or
  anything else.
\<close>

definition eq_traced ::
  "('a, 'o) python \<Rightarrow> handle \<Rightarrow> os_state \<Rightarrow> 'a operand
     \<Rightarrow> (py_error + bool) option \<times> event list" where
  "eq_traced P h os other =
     (case other of
        PyList xs \<Rightarrow> (Some (Inr False), [])
      | NotIterable \<Rightarrow> (Some (Inr False), [])
      | Shared other_h \<Rightarrow>
          (case readData P h os of
             Inl e \<Rightarrow>
               (Some (Inl e), [Acquire (h_name h), Snapshot (h_name h), Release (h_name h)])
           | Inr data \<Rightarrow>
               if h_name other_h = h_name h
               then (None, [Acquire (h_name h), Snapshot (h_name h), Acquire (h_name other_h)])
               else
                 (case readData P other_h os of
                    Inl e \<Rightarrow>
                      (Some (Inl e),
                       [Acquire (h_name h), Snapshot (h_name h),
                        Acquire (h_name other_h), Snapshot (h_name other_h),
                        Release (h_name other_h), Release (h_name h)])
                  | Inr otherData \<Rightarrow>
                      (Some (Inr (py_eq P data otherData)),
                       [Acquire (h_name h), Snapshot (h_name h),
                        Acquire (h_name other_h), Snapshot (h_name other_h),
                        Release (h_name other_h), Release (h_name h)])))
      | PySet s \<Rightarrow>
          (case readData P h os of
             Inl e \<Rightarrow>
               (Some (Inl e), [Acquire (h_name h), Snapshot (h_name h), Release (h_name h)])
           | Inr data \<Rightarrow>
               (Some (Inr (py_eq P data (SetObj s))),
                [Acquire (h_name h), Snapshot (h_name h), Release (h_name h)])))"

definition le_traced ::
  "('a, 'o) python \<Rightarrow> handle \<Rightarrow> os_state \<Rightarrow> 'a operand
     \<Rightarrow> (py_error + bool) option \<times> event list" where
  "le_traced P h os other = isSubset_traced P h os other"

definition ge_traced ::
  "('a, 'o) python \<Rightarrow> handle \<Rightarrow> os_state \<Rightarrow> 'a operand
     \<Rightarrow> (py_error + bool) option \<times> event list" where
  "ge_traced P h os other = isSuperset_traced P h os other"

text \<open>
  \<^verbatim>\<open>first and self != other\<close>, where \<^verbatim>\<open>!=\<close> is the negation of \<^verbatim>\<open>__eq__\<close>: the second
  comparison runs only when the first is true.
\<close>

definition and_not_eq ::
  "('a, 'o) python \<Rightarrow> handle \<Rightarrow> os_state \<Rightarrow> 'a operand
     \<Rightarrow> (py_error + bool) option \<times> event list
     \<Rightarrow> (py_error + bool) option \<times> event list" where
  "and_not_eq P h os other first =
     (case first of
        (None, evs) \<Rightarrow> (None, evs)
      | (Some (Inl e), evs) \<Rightarrow> (Some (Inl e), evs)
      | (Some (Inr b), evs) \<Rightarrow>
          if \<not> b then (Some (Inr False), evs)
          else (case eq_traced P h os other of
                  (None, evs2) \<Rightarrow> (None, evs @ evs2)
                | (Some (Inl e), evs2) \<Rightarrow> (Some (Inl e), evs @ evs2)
                | (Some (Inr c), evs2) \<Rightarrow> (Some (Inr (\<not> c)), evs @ evs2)))"

definition lt_traced ::
  "('a, 'o) python \<Rightarrow> handle \<Rightarrow> os_state \<Rightarrow> 'a operand
     \<Rightarrow> (py_error + bool) option \<times> event list" where
  "lt_traced P h os other = and_not_eq P h os other (le_traced P h os other)"

definition gt_traced ::
  "('a, 'o) python \<Rightarrow> handle \<Rightarrow> os_state \<Rightarrow> 'a operand
     \<Rightarrow> (py_error + bool) option \<times> event list" where
  "gt_traced P h os other = and_not_eq P h os other (ge_traced P h os other)"

text \<open>The methods themselves: the outcome, without the events.\<close>

definition isDisjoint ::
  "('a, 'o) python \<Rightarrow> handle \<Rightarrow> os_state \<Rightarrow> 'a operand \<Rightarrow> (py_error + bool) option" where
  "isDisjoint P h os other = fst (isDisjoint_traced P h os other)"

definition isSubset ::
  "('a, 'o) python \<Rightarrow> handle \<Rightarrow> os_state \<Rightarrow> 'a operand \<Rightarrow> (py_error + bool) option" where
  "isSubset P h os other = fst (isSubset_traced P h os other)"

definition isSuperset ::
  "('a, 'o) python \<Rightarrow> handle \<Rightarrow> os_state \<Rightarrow> 'a operand \<Rightarrow> (py_error + bool) option" where
  "isSuperset P h os other = fst (isSuperset_traced P h os other)"

definition eq ::
  "('a, 'o) python \<Rightarrow> handle \<Rightarrow> os_state \<Rightarrow> 'a operand \<Rightarrow> (py_error + bool) option" where
  "eq P h os other = fst (eq_traced P h os other)"

definition le ::
  "('a, 'o) python \<Rightarrow> handle \<Rightarrow> os_state \<Rightarrow> 'a operand \<Rightarrow> (py_error + bool) option" where
  "le P h os other = fst (le_traced P h os other)"

definition lt ::
  "('a, 'o) python \<Rightarrow> handle \<Rightarrow> os_state \<Rightarrow> 'a operand \<Rightarrow> (py_error + bool) option" where
  "lt P h os other = fst (lt_traced P h os other)"

definition ge ::
  "('a, 'o) python \<Rightarrow> handle \<Rightarrow> os_state \<Rightarrow> 'a operand \<Rightarrow> (py_error + bool) option" where
  "ge P h os other = fst (ge_traced P h os other)"

definition gt ::
  "('a, 'o) python \<Rightarrow> handle \<Rightarrow> os_state \<Rightarrow> 'a operand \<Rightarrow> (py_error + bool) option" where
  "gt P h os other = fst (gt_traced P h os other)"



subsection \<open>Teardown\<close>

definition close :: "handle \<Rightarrow> os_state \<Rightarrow> (py_error + unit) \<times> handle \<times> os_state" where
  "close h os =
     (case h_shm h of
        None \<Rightarrow> (Inr (), h, os)
      | Some s \<Rightarrow> (Inr (), h\<lparr>h_shm := Some (shm_close s)\<rparr>, os))"

definition unlink :: "handle \<Rightarrow> os_state \<Rightarrow> (py_error + unit) \<times> handle \<times> os_state" where
  "unlink h os =
     (case h_shm h of
        None \<Rightarrow> (Inr (), h, os)
      | Some s \<Rightarrow>
          (case shm_unlink (h_name h) os of
             Inl e \<Rightarrow> (Inl e, h, os)
           | Inr os' \<Rightarrow> (Inr (), h, os')))"

subsection \<open>The public interface as one step function\<close>

text \<open>
  A request names a public method with its arguments; \<open>call\<close> runs it on a handle and
  a shared-memory state and returns the outcome with the handle and the state after
  the call.
\<close>

datatype 'a request =
    CallAdd 'a | CallRemove 'a | CallDiscard 'a | CallPop | CallClear
  | CallUpdate "'a fset list" | CallIntersectionUpdate "'a fset list"
  | CallDifferenceUpdate "'a fset list" | CallSymmetricDifferenceUpdate "'a fset"
  | CallContains 'a | CallLen | CallIter | CallCopy
  | CallIsDisjoint "'a operand" | CallIsSubset "'a operand" | CallIsSuperset "'a operand"
  | CallUnion "'a fset list" | CallIntersection "'a fset list"
  | CallDifference "'a fset list" | CallSymmetricDifference "'a fset"
  | CallEq "'a operand" | CallLe "'a operand" | CallLt "'a operand" | CallGe "'a operand"
  | CallGt "'a operand" | CallOr "'a fset" | CallAnd "'a fset" | CallSub "'a fset"
  | CallXor "'a fset" | CallRepr | CallClose | CallUnlink

datatype ('a, 'o) reply =
    RNone | RBool bool | RInt nat | RItem 'a | RElems "'a fset" | RObj "('a, 'o) py_obj"

definition returning ::
  "('r \<Rightarrow> ('a, 'o) reply) \<Rightarrow> (py_error + 'r) \<times> handle \<times> os_state
     \<Rightarrow> (py_error + ('a, 'o) reply) option \<times> handle \<times> os_state" where
  "returning f out = (case out of (r, h, os) \<Rightarrow> (Some (map_sum (\<lambda>e. e) f r), h, os))"

definition reading ::
  "('r \<Rightarrow> ('a, 'o) reply) \<Rightarrow> handle \<Rightarrow> os_state \<Rightarrow> py_error + 'r
     \<Rightarrow> (py_error + ('a, 'o) reply) option \<times> handle \<times> os_state" where
  "reading f h os r = (Some (map_sum (\<lambda>e. e) f r), h, os)"

definition comparing ::
  "handle \<Rightarrow> os_state \<Rightarrow> (py_error + bool) option
     \<Rightarrow> (py_error + ('a, 'o) reply) option \<times> handle \<times> os_state" where
  "comparing h os r = (map_option (map_sum (\<lambda>e. e) RBool) r, h, os)"

primrec call ::
  "('a, 'o) python \<Rightarrow> ('a fset \<Rightarrow> 'a) \<Rightarrow> handle \<Rightarrow> os_state \<Rightarrow> 'a request
     \<Rightarrow> (py_error + ('a, 'o) reply) option \<times> handle \<times> os_state" where
  "call P pick h os (CallAdd x) = returning (\<lambda>u. RNone) (add P h os x)"
| "call P pick h os (CallRemove x) = returning (\<lambda>u. RNone) (remove P h os x)"
| "call P pick h os (CallDiscard x) = returning (\<lambda>u. RNone) (discard P h os x)"
| "call P pick h os CallPop = returning RItem (pop P pick h os)"
| "call P pick h os CallClear = returning (\<lambda>u. RNone) (clear P h os)"
| "call P pick h os (CallUpdate others) = returning (\<lambda>u. RNone) (update P h os others)"
| "call P pick h os (CallIntersectionUpdate others) =
     returning (\<lambda>u. RNone) (intersectionUpdate P h os others)"
| "call P pick h os (CallDifferenceUpdate others) =
     returning (\<lambda>u. RNone) (differenceUpdate P h os others)"
| "call P pick h os (CallSymmetricDifferenceUpdate other) =
     returning (\<lambda>u. RNone) (symmetricDifferenceUpdate P h os other)"
| "call P pick h os (CallContains x) = reading RBool h os (contains P h os x)"
| "call P pick h os CallLen = reading RInt h os (len P h os)"
| "call P pick h os CallIter = reading RElems h os (iter P h os)"
| "call P pick h os CallCopy = reading RObj h os (copy P h os)"
| "call P pick h os (CallIsDisjoint other) = comparing h os (isDisjoint P h os other)"
| "call P pick h os (CallIsSubset other) = comparing h os (isSubset P h os other)"
| "call P pick h os (CallIsSuperset other) = comparing h os (isSuperset P h os other)"
| "call P pick h os (CallUnion others) = reading RObj h os (union_of P h os others)"
| "call P pick h os (CallIntersection others) = reading RObj h os (intersection P h os others)"
| "call P pick h os (CallDifference others) = reading RObj h os (difference P h os others)"
| "call P pick h os (CallSymmetricDifference other) =
     reading RObj h os (symmetricDifference P h os other)"
| "call P pick h os (CallEq other) = comparing h os (eq P h os other)"
| "call P pick h os (CallLe other) = comparing h os (le P h os other)"
| "call P pick h os (CallLt other) = comparing h os (lt P h os other)"
| "call P pick h os (CallGe other) = comparing h os (ge P h os other)"
| "call P pick h os (CallGt other) = comparing h os (gt P h os other)"
| "call P pick h os (CallOr other) = reading RObj h os (or_op P h os other)"
| "call P pick h os (CallAnd other) = reading RObj h os (and_op P h os other)"
| "call P pick h os (CallSub other) = reading RObj h os (sub_op P h os other)"
| "call P pick h os (CallXor other) = reading RObj h os (xor_op P h os other)"
| "call P pick h os CallRepr = reading RObj h os (repr_data P h os)"
| "call P pick h os CallClose = returning (\<lambda>u. RNone) (close h os)"
| "call P pick h os CallUnlink = returning (\<lambda>u. RNone) (unlink h os)"

subsection \<open>Locks and interleaved processes\<close>










subsection \<open>Well-formed codecs and handles, valid and corrupt blocks\<close>

text \<open>
  What the proofs need of pickle: decoding the encoding of a set gives the set back,
  and the encoding of a set is not empty and does not end in a zero byte (a pickle ends
  with the STOP opcode, the byte \<open>0x2E\<close>).
\<close>

definition codec_ok :: "('a, 'o) python \<Rightarrow> bool" where
  "codec_ok P =
     (\<forall>v. pickle_loads P (pickle_dumps P (SetObj v)) = Inr (SetObj v)
        \<and> pickle_dumps P (SetObj v) \<noteq> [] \<and> last (pickle_dumps P (SetObj v)) \<noteq> 0)"

text \<open>
  \<^verbatim>\<open>set.pop\<close> returns an arbitrary element of a set that is not empty: any function
  that chooses an element of its argument.
\<close>

definition chooser :: "('a fset \<Rightarrow> 'a) \<Rightarrow> bool" where
  "chooser pick = (\<forall>T. T \<noteq> {||} \<longrightarrow> pick T |\<in>| T)"

text \<open>An open handle: its object has a buffer, over a block that exists.\<close>

definition is_open :: "handle \<Rightarrow> os_state \<Rightarrow> bool" where
  "is_open h os =
     (case h_shm h of
        None \<Rightarrow> False
      | Some s \<Rightarrow> mapped s \<and> seg_id s < length (segs os))"

text \<open>
  A handle is attached when its object is open and maps the block that its name is
  bound to: the state a constructor leaves and every completed write keeps.
\<close>

definition attached :: "handle \<Rightarrow> os_state \<Rightarrow> bool" where
  "attached h os =
     (case h_shm h of
        None \<Rightarrow> False
      | Some s \<Rightarrow> mapped s \<and> seg_id s < length (segs os)
                  \<and> names os (h_name h) = Some (seg_id s))"

definition capacity :: "handle \<Rightarrow> os_state \<Rightarrow> nat" where
  "capacity h os = (case h_shm h of None \<Rightarrow> 0 | Some s \<Rightarrow> shm_size s os)"

definition live_bytes :: "handle \<Rightarrow> os_state \<Rightarrow> byte list" where
  "live_bytes h os = (case h_shm h of None \<Rightarrow> [] | Some s \<Rightarrow> block os (seg_id s))"

text \<open>
  A block is valid when, the trailing zero bytes stripped, nothing is left (it reads as
  the empty set) or what is left decodes to a set value.
\<close>

definition decodes_to_set :: "('a, 'o) python \<Rightarrow> byte list \<Rightarrow> bool" where
  "decodes_to_set P raw =
     (case pickle_loads P raw of
        Inr (SetObj v) \<Rightarrow> True
      | Inr (OtherObj x) \<Rightarrow> False
      | Inl e \<Rightarrow> False)"

definition seg_valid :: "('a, 'o) python \<Rightarrow> byte list \<Rightarrow> bool" where
  "seg_valid P bs = (rstrip0 bs = [] \<or> decodes_to_set P (rstrip0 bs))"

definition store_valid :: "('a, 'o) python \<Rightarrow> os_state \<Rightarrow> bool" where
  "store_valid P os = list_all (seg_valid P) (segs os)"




subsection \<open>A small Python to run the model on\<close>

text \<open>
  Elements are bytes. A pickle is shaped like a real one: a first byte that tells the
  class, the content, the STOP byte \<open>0x2E\<close>. After \<open>0x80\<close> come the elements of a set
  in increasing order; after \<open>0x5D\<close> the items of a list; a payload that starts with
  \<open>0x63\<close> calls \<^verbatim>\<open>sys.exit\<close> when it is loaded. Anything else is not a pickle.
\<close>

definition toy_dumps :: "(byte, byte list) py_obj \<Rightarrow> byte list" where
  "toy_dumps data =
     (case data of
        SetObj v \<Rightarrow> 0x80 # sorted_list_of_fset v @ [0x2E]
      | OtherObj xs \<Rightarrow> 0x5D # xs @ [0x2E])"

definition toy_loads :: "byte list \<Rightarrow> py_error + (byte, byte list) py_obj" where
  "toy_loads bs =
     (case bs of
        [] \<Rightarrow> Inl UnpicklingError
      | b # rest \<Rightarrow>
          if rest = [] \<or> last rest \<noteq> 0x2E then Inl UnpicklingError
          else if b = 0x80 then
            (if sorted (butlast rest) \<and> distinct (butlast rest)
             then Inr (SetObj (fset_of_list (butlast rest))) else Inl UnpicklingError)
          else if b = 0x5D then Inr (OtherObj (butlast rest))
          else if b = 0x63 then Inl SystemExit
          else Inl UnpicklingError)"

text \<open>
  The only objects that are not sets are lists, with the methods of Python's
  \<^verbatim>\<open>list\<close>: a list has \<^verbatim>\<open>remove\<close>, \<^verbatim>\<open>pop\<close> and \<^verbatim>\<open>copy\<close>, and none of the other
  methods that the class calls.
\<close>

fun toy_mutate :: "byte mutation \<Rightarrow> byte list \<Rightarrow> py_error + byte list" where
  "toy_mutate (M_remove x) xs = (if x \<in> set xs then Inr (remove1 x xs) else Inl ValueError)"
| "toy_mutate m xs = Inl AttributeError"

definition toy_pop :: "byte list \<Rightarrow> py_error + byte \<times> byte list" where
  "toy_pop xs = (if xs = [] then Inl IndexError else Inr (last xs, butlast xs))"

fun toy_derive :: "byte derivation \<Rightarrow> byte list \<Rightarrow> py_error + (byte, byte list) py_obj" where
  "toy_derive D_copy xs = Inr (OtherObj xs)"
| "toy_derive d xs = Inl AttributeError"

definition toy :: "(byte, byte list) python" where
  "toy = \<lparr>pickle_dumps = toy_dumps, pickle_loads = toy_loads,
          other_truth = (\<lambda>xs. xs \<noteq> []),
          other_mutate = toy_mutate,
          other_pop = toy_pop,
          other_contains = (\<lambda>x xs. Inr (x \<in> set xs)),
          other_len = (\<lambda>xs. Inr (length xs)),
          other_iter = (\<lambda>xs. Inr (fset_of_list xs)),
          other_derive = toy_derive,
          other_test = (\<lambda>t xs h os other. (Some (Inl AttributeError), [])),
          other_eq = (\<lambda>a b. a = b)\<rparr>"

text \<open>The choice used to run the model: the least element.\<close>

definition toy_pick :: "byte fset \<Rightarrow> byte" where
  "toy_pick T = (case sorted_list_of_fset T of [] \<Rightarrow> 0 | x # xs \<Rightarrow> x)"

subsection \<open>Example states\<close>

definition empty_os :: os_state where
  "empty_os = \<lparr>segs = [], names = Map.empty\<rparr>"

text \<open>
  One block of eight zero bytes bound to the name \<open>s\<close>, and a handle attached to it.
\<close>

definition ex_os :: os_state where
  "ex_os = \<lparr>segs = [replicate 8 0], names = [''s'' \<mapsto> 0]\<rparr>"

definition ex_handle :: handle where
  "ex_handle = \<lparr>h_name = ''s'', h_size = 8, h_shm = Some \<lparr>seg_id = 0, mapped = True\<rparr>\<rparr>"

text \<open>The same block holding the encoding of the set \<open>{1, 2, 3}\<close>.\<close>

definition ex_os3 :: os_state where
  "ex_os3 = \<lparr>segs = [[0x80, 1, 2, 3, 0x2E, 0, 0, 0]], names = [''s'' \<mapsto> 0]\<rparr>"




text \<open>
  What the process that wins a race on the name \<open>s\<close> does between the two system calls
  of the loser: it runs the same constructor to the end.
\<close>

definition winner :: "os_state \<Rightarrow> os_state" where
  "winner os = snd (init toy ''s'' 8 os)"




section \<open>Properties\<close>

subsection \<open>Stripping the padding\<close>

lemma dropWhile_replicate_zero:
  "dropWhile (\<lambda>b. b = (0::byte)) (replicate n 0 @ ys) = dropWhile (\<lambda>b. b = 0) ys"
  by (induction n) simp_all

lemma rstrip0_padded:
  assumes "bs \<noteq> []" and "last bs \<noteq> 0"
  shows "rstrip0 (bs @ replicate n 0) = bs"
proof -
  from assms obtain ys y where bs: "bs = ys @ [y]" and y: "y \<noteq> 0"
    by (metis append_butlast_last_id)
  have "rev (bs @ replicate n 0) = replicate n 0 @ (y # rev ys)"
    by (simp add: bs)
  then have "dropWhile (\<lambda>b. b = 0) (rev (bs @ replicate n 0)) = y # rev ys"
    using y by (simp only: dropWhile_replicate_zero) simp
  then show ?thesis
    by (simp add: rstrip0_def bs)
qed

lemma rstrip0_zeros: "rstrip0 (replicate n 0) = []"
  using dropWhile_replicate_zero [of n "[]"] by (simp add: rstrip0_def)

lemma rstrip0_Nil: "rstrip0 [] = []"
  by (simp add: rstrip0_def)

subsection \<open>The example Python is well formed\<close>

lemma sorted_list_of_fset_sorted: "sorted (sorted_list_of_fset v)"
  by (simp add: sorted_list_of_fset.rep_eq)

lemma sorted_list_of_fset_distinct: "distinct (sorted_list_of_fset v)"
  by (simp add: sorted_list_of_fset.rep_eq)

lemma toy_ok: "codec_ok toy"
  unfolding codec_ok_def toy_def toy_dumps_def toy_loads_def
  by (simp add: sorted_list_of_fset_sorted sorted_list_of_fset_distinct)

lemma toy_pick_chooser: "chooser toy_pick"
proof -
  have "toy_pick T |\<in>| T" if "T \<noteq> {||}" for T
  proof (cases "sorted_list_of_fset T")
    case Nil
    then have "fset_of_list (sorted_list_of_fset T) = {||}" by simp
    with that show ?thesis by simp
  next
    case (Cons x xs)
    then have "x \<in> set (sorted_list_of_fset T)" by simp
    then have "x |\<in>| T" by simp
    then show ?thesis by (simp add: toy_pick_def Cons)
  qed
  then show ?thesis by (simp add: chooser_def)
qed

subsection \<open>The write protocol, case by case\<close>

lemma is_openD:
  "is_open h os \<Longrightarrow> \<exists>s. h_shm h = Some s \<and> mapped s \<and> seg_id s < length (segs os)"
  by (auto simp: is_open_def split: option.splits)

lemma attachedD:
  "attached h os \<Longrightarrow>
     \<exists>s. h_shm h = Some s \<and> mapped s \<and> seg_id s < length (segs os)
        \<and> names os (h_name h) = Some (seg_id s)"
  by (auto simp: attached_def split: option.splits)

lemma block_update_same:
  "i < length (segs os) \<Longrightarrow> block (os\<lparr>segs := (segs os)[i := bs]\<rparr>) i = bs"
  by (simp add: block_def)

lemma block_append_new:
  "block (os\<lparr>segs := segs os @ [bs], names := ns\<rparr>) (length (segs os)) = bs"
  by (simp add: block_def)

lemma readData_padded:
  assumes "codec_ok P" and "h_shm h = Some s" and "mapped s"
    and "block os (seg_id s) = pickle_dumps P (SetObj v) @ replicate n 0"
  shows "readData P h os = Inr (SetObj v)"
proof -
  let ?enc = "pickle_dumps P (SetObj v)"
  from assms(1) have enc: "?enc \<noteq> []" "last ?enc \<noteq> 0"
    and dec: "pickle_loads P ?enc = Inr (SetObj v)"
    by (simp_all add: codec_ok_def)
  have "rstrip0 (block os (seg_id s)) = ?enc"
    by (simp add: assms(4) rstrip0_padded enc)
  then show ?thesis
    by (simp add: readData_def assms(2,3) enc dec)
qed

lemma writeData_fits:
  assumes "h_shm h = Some s" and "mapped s"
    and "length (pickle_dumps P data) \<le> shm_size s os"
  shows "writeData P h os data =
           (Inr (), h,
            os\<lparr>segs := (segs os)[seg_id s :=
                  pickle_dumps P data @ replicate (shm_size s os - length (pickle_dumps P data)) 0]\<rparr>)"
  using assms by (simp add: writeData_def store_buf_def Let_def)

lemma writeData_grows:
  assumes "h_shm h = Some s" and "names os (h_name h) \<noteq> None"
    and "shm_size s os < length (pickle_dumps P data)"
  shows "writeData P h os data =
           (Inr (), h\<lparr>h_shm := Some \<lparr>seg_id = length (segs os), mapped = True\<rparr>\<rparr>,
            os\<lparr>segs := segs os @
                  [pickle_dumps P data @
                   replicate (max (length (pickle_dumps P data)) (shm_size s os * 2)
                              - length (pickle_dumps P data)) 0],
               names := (names os)(h_name h \<mapsto> length (segs os))\<rparr>)"
  using assms
  by (auto simp add: writeData_def store_buf_def Let_def shm_unlink_def SharedMemory_create_def
      shm_size_def shm_close_def block_def)

lemma readData_no_payload:
  assumes "is_open h os" and "rstrip0 (live_bytes h os) = []"
  shows "readData P h os = Inr (SetObj {||})"
  using assms
  by (auto simp: is_open_def live_bytes_def readData_def split: option.splits)

lemma writeData_fits_open:
  assumes "codec_ok P" and "h_shm h = Some s" and "mapped s"
    and "seg_id s < length (segs os)"
    and "length (pickle_dumps P (SetObj v)) \<le> shm_size s os"
  defines "os' \<equiv> os\<lparr>segs := (segs os)[seg_id s :=
                  pickle_dumps P (SetObj v) @
                  replicate (shm_size s os - length (pickle_dumps P (SetObj v))) 0]\<rparr>"
  shows "writeData P h os (SetObj v) = (Inr (), h, os')"
    and "readData P h os' = Inr (SetObj v)"
    and "block os' (seg_id s) =
           pickle_dumps P (SetObj v) @
           replicate (shm_size s os - length (pickle_dumps P (SetObj v))) 0"
    and "shm_size s os' = shm_size s os"
    and "names os' = names os" and "length (segs os') = length (segs os)"
proof -
  show "writeData P h os (SetObj v) = (Inr (), h, os')"
    unfolding os'_def using assms(2,3,5) by (rule writeData_fits)
  show blk: "block os' (seg_id s) =
           pickle_dumps P (SetObj v) @
           replicate (shm_size s os - length (pickle_dumps P (SetObj v))) 0"
    using assms(4) by (simp add: os'_def block_def)
  show "readData P h os' = Inr (SetObj v)"
    using assms(1,2,3) blk by (rule readData_padded)
  show "shm_size s os' = shm_size s os"
    using assms(5) by (simp add: shm_size_def [of s os'] blk)
  show "names os' = names os" and "length (segs os') = length (segs os)"
    by (simp_all add: os'_def)
qed

lemma writeData_grows_attached:
  assumes "codec_ok P" and "attached h os"
    and "capacity h os < length (pickle_dumps P (SetObj v))"
  shows "\<exists>h' os'. writeData P h os (SetObj v) = (Inr (), h', os')
           \<and> h_name h' = h_name h
           \<and> attached h' os'
           \<and> capacity h' os' = max (length (pickle_dumps P (SetObj v))) (2 * capacity h os)
           \<and> live_bytes h' os' =
               pickle_dumps P (SetObj v) @
               replicate (capacity h' os' - length (pickle_dumps P (SetObj v))) 0
           \<and> readData P h' os' = Inr (SetObj v)
           \<and> h_shm h' = Some \<lparr>seg_id = length (segs os), mapped = True\<rparr>
           \<and> (\<forall>i < length (segs os). block os' i = block os i)"
proof -
  from assms(2) obtain s where s: "h_shm h = Some s" "names os (h_name h) = Some (seg_id s)"
    by (blast dest: attachedD)
  let ?enc = "pickle_dumps P (SetObj v)"
  let ?new = "max (length ?enc) (shm_size s os * 2)"
  let ?s' = "\<lparr>seg_id = length (segs os), mapped = True\<rparr>"
  let ?h' = "h\<lparr>h_shm := Some ?s'\<rparr>"
  let ?os' = "os\<lparr>segs := segs os @ [?enc @ replicate (?new - length ?enc) 0],
                 names := (names os)(h_name h \<mapsto> length (segs os))\<rparr>"
  from assms(3) s have big: "shm_size s os < length ?enc"
    by (simp add: capacity_def)
  have w: "writeData P h os (SetObj v) = (Inr (), ?h', ?os')"
    using s big by (simp add: writeData_grows)
  have att: "attached ?h' ?os'"
    by (simp add: attached_def)
  have cap: "capacity ?h' ?os' = max (length ?enc) (2 * capacity h os)"
    using s(1) by (simp add: capacity_def shm_size_def block_def max_def)
  have lb: "live_bytes ?h' ?os' = ?enc @ replicate (capacity ?h' ?os' - length ?enc) 0"
    using s(1) by (simp add: live_bytes_def capacity_def shm_size_def block_def)
  have rd: "readData P ?h' ?os' = Inr (SetObj v)"
    using assms(1)
    by (rule readData_padded [where s = "?s'" and n = "?new - length ?enc"])
      (simp_all add: block_def)
  have old: "\<forall>i < length (segs os). block ?os' i = block os i"
    by (simp add: block_def nth_append)
  show ?thesis
    using w att cap lb rd old by simp
qed

lemma writeData_attached:
  assumes "codec_ok P" and "attached h os"
  shows "\<exists>h' os'. writeData P h os (SetObj v) = (Inr (), h', os')
           \<and> h_name h' = h_name h \<and> attached h' os'
           \<and> readData P h' os' = Inr (SetObj v)"
proof -
  from assms(2) obtain s where s: "h_shm h = Some s" "mapped s" "seg_id s < length (segs os)"
      "names os (h_name h) = Some (seg_id s)"
    by (blast dest: attachedD)
  let ?enc = "pickle_dumps P (SetObj v)"
  show ?thesis
  proof (cases "length ?enc \<le> shm_size s os")
    case True
    let ?os' = "os\<lparr>segs := (segs os)[seg_id s := ?enc @ replicate (shm_size s os - length ?enc) 0]\<rparr>"
    have "writeData P h os (SetObj v) = (Inr (), h, ?os')"
      using s(1,2) True by (rule writeData_fits)
    moreover have "attached h ?os'"
      using s by (simp add: attached_def)
    moreover have "readData P h ?os' = Inr (SetObj v)"
      using assms(1) s(1,2) by (rule readData_padded) (simp add: s(3) block_def)
    ultimately show ?thesis by simp
  next
    case False
    then have "capacity h os < length ?enc"
      using s(1) by (simp add: capacity_def)
    from writeData_grows_attached [OF assms this] show ?thesis by blast
  qed
qed

lemma init_attaches:
  assumes "names os name = Some sid"
  shows "init P name sz os =
           (Inr \<lparr>h_name = name, h_size = sz, h_shm = Some \<lparr>seg_id = sid, mapped = True\<rparr>\<rparr>, os)"
  using assms by (simp add: init_def init_raced_def SharedMemory_attach_def)

lemma create_fresh:
  assumes "names os name = None" and "0 < sz"
  shows "SharedMemory_create name sz os =
           Inr (\<lparr>seg_id = length (segs os), mapped = True\<rparr>,
                os\<lparr>segs := segs os @ [replicate (nat sz) 0],
                   names := (names os)(name \<mapsto> length (segs os))\<rparr>)"
  using assms by (simp add: SharedMemory_create_def)

lemma late_attacher:
  assumes "attached h os" and "readData P h os = Inr v"
  shows "\<exists>h2. init P (h_name h) sz os = (Inr h2, os) \<and> attached h2 os
           \<and> readData P h2 os = Inr v"
proof -
  from assms(1) obtain t where t: "h_shm h = Some t" "mapped t"
      "seg_id t < length (segs os)" "names os (h_name h) = Some (seg_id t)"
    by (blast dest: attachedD)
  let ?h2 = "\<lparr>h_name = h_name h, h_size = sz, h_shm = Some \<lparr>seg_id = seg_id t, mapped = True\<rparr>\<rparr>"
  have "init P (h_name h) sz os = (Inr ?h2, os)"
    using t(4) by (rule init_attaches)
  moreover have "attached ?h2 os"
    using t(3,4) by (simp add: attached_def)
  moreover have "readData P ?h2 os = readData P h os"
    using t(1,2) by (simp add: readData_def)
  ultimately show ?thesis using assms(2) by simp
qed

subsection \<open>Writing and reading back\<close>

text \<open>
  Claim C1. For every set value \<open>v\<close> whose encoding fits in the capacity of the block,
  \<^verbatim>\<open>_writeData\<close> stores the encoded bytes followed by zero bytes up to the capacity,
  and \<^verbatim>\<open>_readData\<close>, which strips the trailing zero bytes and decodes, then returns
  exactly \<open>v\<close>; a block whose stripped content is empty reads as the empty set.
\<close>

theorem writeData_readData_roundtrip:
  assumes "codec_ok P" and "is_open h os"
    and "length (pickle_dumps P (SetObj v)) \<le> capacity h os"
  shows "\<exists>os'. writeData P h os (SetObj v) = (Inr (), h, os')
           \<and> live_bytes h os' =
               pickle_dumps P (SetObj v) @
               replicate (capacity h os - length (pickle_dumps P (SetObj v))) 0
           \<and> length (live_bytes h os') = capacity h os
           \<and> rstrip0 (live_bytes h os') = pickle_dumps P (SetObj v)
           \<and> readData P h os' = Inr (SetObj v)
           \<and> (\<forall>os2. is_open h os2 \<and> rstrip0 (live_bytes h os2) = []
                  \<longrightarrow> readData P h os2 = Inr (SetObj {||}))"
proof -
  from assms(2) obtain s where s: "h_shm h = Some s" "mapped s" "seg_id s < length (segs os)"
    by (blast dest: is_openD)
  let ?enc = "pickle_dumps P (SetObj v)"
  let ?buf = "?enc @ replicate (shm_size s os - length ?enc) 0"
  let ?os' = "os\<lparr>segs := (segs os)[seg_id s := ?buf]\<rparr>"
  from assms(3) s have fit: "length ?enc \<le> shm_size s os"
    by (simp add: capacity_def)
  from assms(1) have enc: "?enc \<noteq> []" "last ?enc \<noteq> 0"
    by (simp_all add: codec_ok_def)
  have w: "writeData P h os (SetObj v) = (Inr (), h, ?os')"
    using s(1,2) fit by (rule writeData_fits)
  have lb: "live_bytes h ?os' = ?buf"
    using s by (simp add: live_bytes_def block_def)
  have rd: "readData P h ?os' = Inr (SetObj v)"
    using assms(1) s(1,2) by (rule readData_padded) (simp add: s(3) block_def)
  have empty: "\<forall>os2. is_open h os2 \<and> rstrip0 (live_bytes h os2) = []
                  \<longrightarrow> readData P h os2 = Inr (SetObj {||})"
    by (simp add: readData_no_payload)
  show ?thesis
    using w lb rd empty fit s(1) enc
    by (simp add: capacity_def rstrip0_padded)
qed

theorem writeData_readData_roundtrip_witness:
  "codec_ok toy \<and> is_open ex_handle ex_os
   \<and> length (pickle_dumps toy (SetObj {|1, 2|})) \<le> capacity ex_handle ex_os
   \<and> (\<exists>os'. writeData toy ex_handle ex_os (SetObj {|1, 2|}) = (Inr (), ex_handle, os')
          \<and> live_bytes ex_handle os' = [0x80, 1, 2, 0x2E, 0, 0, 0, 0]
          \<and> readData toy ex_handle os' = Inr (SetObj {|1, 2|}))"
proof -
  have a: "codec_ok toy" by (rule toy_ok)
  have b: "is_open ex_handle ex_os" by code_simp
  have c: "length (pickle_dumps toy (SetObj {|1, 2|})) \<le> capacity ex_handle ex_os"
    by code_simp
  have d: "pickle_dumps toy (SetObj {|1, 2|}) @
             replicate (capacity ex_handle ex_os - length (pickle_dumps toy (SetObj {|1, 2|}))) 0
           = [0x80, 1, 2, 0x2E, 0, 0, 0, 0]" by code_simp
  from writeData_readData_roundtrip [OF a b c] show ?thesis
    using a b c unfolding d by blast
qed

text \<open>
  Claim C2. For every set value \<open>v\<close> whose encoding is longer than the capacity of the
  block, \<^verbatim>\<open>_writeData\<close> creates a new block under the same name, of capacity exactly
  the maximum of the encoded length and twice the old capacity, and a read after it
  returns \<open>v\<close>, through this handle and through any handle attached to the name
  afterwards.
\<close>

theorem writeData_grows_segment:
  assumes "codec_ok P" and "attached h os"
    and "capacity h os < length (pickle_dumps P (SetObj v))"
  shows "\<exists>h' os'. writeData P h os (SetObj v) = (Inr (), h', os')
           \<and> h_name h' = h_name h
           \<and> attached h' os'
           \<and> capacity h' os' = max (length (pickle_dumps P (SetObj v))) (2 * capacity h os)
           \<and> readData P h' os' = Inr (SetObj v)
           \<and> (\<forall>sz. \<exists>h2. init P (h_name h) sz os' = (Inr h2, os')
                  \<and> readData P h2 os' = Inr (SetObj v))"
proof -
  from writeData_grows_attached [OF assms]
  obtain h' os' where w: "writeData P h os (SetObj v) = (Inr (), h', os')" "h_name h' = h_name h"
      "attached h' os'"
      "capacity h' os' = max (length (pickle_dumps P (SetObj v))) (2 * capacity h os)"
      "readData P h' os' = Inr (SetObj v)"
    by blast
  have "\<exists>h2. init P (h_name h) sz os' = (Inr h2, os') \<and> readData P h2 os' = Inr (SetObj v)"
    for sz
    using late_attacher [OF w(3,5), of sz] w(2) by auto
  with w show ?thesis by blast
qed

theorem writeData_grows_segment_witness:
  "codec_ok toy \<and> attached ex_handle ex_os
   \<and> capacity ex_handle ex_os < length (pickle_dumps toy (SetObj {|1, 2, 3, 4, 5, 6, 7, 8, 9|}))
   \<and> (\<exists>h' os'. writeData toy ex_handle ex_os (SetObj {|1, 2, 3, 4, 5, 6, 7, 8, 9|})
                   = (Inr (), h', os')
          \<and> capacity h' os' = 16
          \<and> readData toy h' os' = Inr (SetObj {|1, 2, 3, 4, 5, 6, 7, 8, 9|}))"
proof -
  have a: "codec_ok toy" by (rule toy_ok)
  have b: "attached ex_handle ex_os" by code_simp
  have c: "capacity ex_handle ex_os
             < length (pickle_dumps toy (SetObj {|1, 2, 3, 4, 5, 6, 7, 8, 9|}))"
    by code_simp
  have d: "max (length (pickle_dumps toy (SetObj {|1, 2, 3, 4, 5, 6, 7, 8, 9|})))
             (2 * capacity ex_handle ex_os) = 16" by code_simp
  from writeData_grows_segment [OF a b c] show ?thesis
    using a b c unfolding d by blast
qed

subsection \<open>remove, pop and discard\<close>

text \<open>
  Claim C4. For every stored set \<open>S\<close> and element \<open>x\<close>: if \<open>x\<close> is in \<open>S\<close>, \<^verbatim>\<open>remove(x)\<close>
  stores exactly \<open>S\<close> without \<open>x\<close>; if \<open>x\<close> is not in \<open>S\<close>, it fails with
  \<^verbatim>\<open>KeyError\<close> (the not-found error) and leaves the handle and the stored bytes as
  they were.
\<close>

theorem remove_present_or_KeyError:
  assumes "codec_ok P" and "attached h os" and "readData P h os = Inr (SetObj S)"
  shows "(x |\<in>| S \<longrightarrow>
            (\<exists>h' os'. remove P h os x = (Inr (), h', os')
               \<and> attached h' os' \<and> readData P h' os' = Inr (SetObj (S |-| {|x|}))))
       \<and> (x |\<notin>| S \<longrightarrow>
            remove P h os x = (Inl KeyError, h, os) \<and> readData P h os = Inr (SetObj S))"
proof (cases "x |\<in>| S")
  case True
  from writeData_attached [OF assms(1,2), of "S |-| {|x|}"]
  show ?thesis using True assms(3) by (auto simp: remove_def py_mutate_def)
next
  case False
  then show ?thesis using assms(3) by (simp add: remove_def py_mutate_def)
qed

theorem remove_present_or_KeyError_witness:
  "codec_ok toy \<and> attached ex_handle ex_os3
   \<and> readData toy ex_handle ex_os3 = Inr (SetObj {|1, 2, 3|})
   \<and> 2 |\<in>| {|1, 2, 3 :: byte|} \<and> 7 |\<notin>| {|1, 2, 3 :: byte|}
   \<and> (\<exists>h' os'. remove toy ex_handle ex_os3 2 = (Inr (), h', os')
          \<and> readData toy h' os' = Inr (SetObj {|1, 3|}))
   \<and> remove toy ex_handle ex_os3 7 = (Inl KeyError, ex_handle, ex_os3)"
proof -
  have a: "codec_ok toy" by (rule toy_ok)
  have b: "attached ex_handle ex_os3" by code_simp
  have c: "readData toy ex_handle ex_os3 = Inr (SetObj {|1, 2, 3|})" by code_simp
  have d: "2 |\<in>| {|1, 2, 3 :: byte|}" "7 |\<notin>| {|1, 2, 3 :: byte|}"
    "{|1, 2, 3 :: byte|} |-| {|2|} = {|1, 3|}" by code_simp+
  from remove_present_or_KeyError [OF a b c, of 2] remove_present_or_KeyError [OF a b c, of 7]
  show ?thesis using a b c d by auto
qed

text \<open>
  Claim C5. For every stored set \<open>S\<close>: if \<open>S\<close> is empty, \<^verbatim>\<open>pop()\<close> fails with
  \<^verbatim>\<open>KeyError\<close> (the empty-set error) and the stored set stays empty; otherwise it
  returns some element \<open>x\<close> of \<open>S\<close> and stores exactly \<open>S\<close> without \<open>x\<close>, so the stored
  set has one element less and does not contain \<open>x\<close>.
\<close>

theorem pop_element_or_KeyError:
  assumes "codec_ok P" and "chooser pick" and "attached h os"
    and "readData P h os = Inr (SetObj S)"
  shows "(S = {||} \<longrightarrow>
            pop P pick h os = (Inl KeyError, h, os) \<and> readData P h os = Inr (SetObj {||}))
       \<and> (S \<noteq> {||} \<longrightarrow>
            (\<exists>x h' os'. pop P pick h os = (Inr x, h', os')
               \<and> x |\<in>| S
               \<and> attached h' os'
               \<and> readData P h' os' = Inr (SetObj (S |-| {|x|}))
               \<and> x |\<notin>| S |-| {|x|}
               \<and> Suc (fcard (S |-| {|x|})) = fcard S))"
proof (cases "S = {||}")
  case True
  then show ?thesis using assms(4) by (simp add: pop_def py_truth_def)
next
  case False
  with assms(2) have mem: "pick S |\<in>| S" by (simp add: chooser_def)
  from writeData_attached [OF assms(1,3), of "S |-| {|pick S|}"]
  obtain h' os' where w: "writeData P h os (SetObj (S |-| {|pick S|})) = (Inr (), h', os')"
      "attached h' os'" "readData P h' os' = Inr (SetObj (S |-| {|pick S|}))"
    by blast
  have "pop P pick h os = (Inr (pick S), h', os')"
    using False assms(4) w(1) by (simp add: pop_def py_truth_def py_pop_def)
  moreover have "Suc (fcard (S |-| {|pick S|})) = fcard S"
    using mem by (rule fcard_Suc_fminus1)
  moreover have "pick S |\<notin>| S |-| {|pick S|}" by simp
  ultimately show ?thesis
    using mem w(2,3) False by blast
qed

theorem pop_element_or_KeyError_witness:
  "codec_ok toy \<and> chooser toy_pick
   \<and> attached ex_handle ex_os3 \<and> readData toy ex_handle ex_os3 = Inr (SetObj {|1, 2, 3|})
   \<and> attached ex_handle ex_os \<and> readData toy ex_handle ex_os = Inr (SetObj {||})
   \<and> {|1, 2, 3 :: byte|} \<noteq> {||}
   \<and> (\<exists>x h' os'. pop toy toy_pick ex_handle ex_os3 = (Inr x, h', os')
          \<and> x |\<in>| {|1, 2, 3|}
          \<and> readData toy h' os' = Inr (SetObj ({|1, 2, 3|} |-| {|x|}))
          \<and> Suc (fcard ({|1, 2, 3|} |-| {|x|})) = 3)
   \<and> pop toy toy_pick ex_handle ex_os = (Inl KeyError, ex_handle, ex_os)"
proof -
  have a: "codec_ok toy" by (rule toy_ok)
  have p: "chooser toy_pick" by (rule toy_pick_chooser)
  have b: "attached ex_handle ex_os3" "attached ex_handle ex_os" by code_simp+
  have c: "readData toy ex_handle ex_os3 = Inr (SetObj {|1, 2, 3|})" by code_simp
  have c0: "readData toy ex_handle ex_os = Inr (SetObj {||})" by code_simp
  have d: "{|1, 2, 3 :: byte|} \<noteq> {||}" "fcard {|1, 2, 3 :: byte|} = 3" by code_simp+
  from pop_element_or_KeyError [OF a p b(1) c] pop_element_or_KeyError [OF a p b(2) c0]
  show ?thesis using a p b c c0 d by auto
qed

text \<open>
  Claim C10. For every stored set \<open>S\<close> and element \<open>x\<close>, \<^verbatim>\<open>discard(x)\<close> raises no error
  and stores exactly \<open>S\<close> without \<open>x\<close>; when \<open>x\<close> is not in \<open>S\<close> the stored set, encoded
  again, is still exactly \<open>S\<close>.
\<close>

theorem discard_never_raises:
  assumes "codec_ok P" and "attached h os" and "readData P h os = Inr (SetObj S)"
  shows "\<exists>h' os'. discard P h os x = (Inr (), h', os')
           \<and> attached h' os'
           \<and> readData P h' os' = Inr (SetObj (S |-| {|x|}))
           \<and> (x |\<notin>| S \<longrightarrow> readData P h' os' = Inr (SetObj S))"
proof -
  from writeData_attached [OF assms(1,2), of "S |-| {|x|}"]
  obtain h' os' where w: "writeData P h os (SetObj (S |-| {|x|})) = (Inr (), h', os')"
      "attached h' os'" "readData P h' os' = Inr (SetObj (S |-| {|x|}))"
    by blast
  have "discard P h os x = (Inr (), h', os')"
    using assms(3) w(1) by (simp add: discard_def py_mutate_def)
  moreover have "x |\<notin>| S \<Longrightarrow> S |-| {|x|} = S" by auto
  ultimately show ?thesis using w(2,3) by auto
qed

theorem discard_never_raises_witness:
  "codec_ok toy \<and> attached ex_handle ex_os3
   \<and> readData toy ex_handle ex_os3 = Inr (SetObj {|1, 2, 3|})
   \<and> 7 |\<notin>| {|1, 2, 3 :: byte|}
   \<and> (\<exists>h' os'. discard toy ex_handle ex_os3 7 = (Inr (), h', os')
          \<and> readData toy h' os' = Inr (SetObj {|1, 2, 3|}))
   \<and> (\<exists>h' os'. discard toy ex_handle ex_os3 2 = (Inr (), h', os')
          \<and> readData toy h' os' = Inr (SetObj {|1, 3|}))"
proof -
  have a: "codec_ok toy" by (rule toy_ok)
  have b: "attached ex_handle ex_os3" by code_simp
  have c: "readData toy ex_handle ex_os3 = Inr (SetObj {|1, 2, 3|})" by code_simp
  have d: "7 |\<notin>| {|1, 2, 3 :: byte|}" "{|1, 2, 3 :: byte|} |-| {|2|} = {|1, 3|}"
    by code_simp+
  from discard_never_raises [OF a b c, of 7] discard_never_raises [OF a b c, of 2]
  show ?thesis using a b c d by auto
qed

subsection \<open>A new set is empty\<close>

text \<open>
  Claim C7 says that a constructor that finds no block under the name creates one of
  the given size and writes the encoding of the empty set into it. With the size 1 and
  an encoding of two bytes it does not: the block of one byte that it creates is left
  holding a zero byte and loses the name, and the encoding is in a second block, of two
  bytes, that the write protocol creates under the name.
\<close>

theorem init_small_size_counterexample:
  "SharedMemory_attach ''s'' empty_os = Inl FileNotFoundError
   \<and> fst (init toy ''s'' 1 empty_os) =
       Inr \<lparr>h_name = ''s'', h_size = 1, h_shm = Some \<lparr>seg_id = 1, mapped = True\<rparr>\<rparr>
   \<and> segs (snd (init toy ''s'' 1 empty_os)) = [[0], [0x80, 0x2E]]
   \<and> names (snd (init toy ''s'' 1 empty_os)) ''s'' = Some 1"
  by code_simp

text \<open>
  Claim C7, amended. When the constructor finds no block under the name and the
  provider creates one, the new block has the given size and is filled with zero
  bytes, and the constructor at once writes the encoding of the empty set under the
  name with \<^verbatim>\<open>_writeData\<close>. When the encoding fits in the given size, it goes into
  that block, followed by zero bytes, and the capacity stays the given size. When it
  does not fit, that block is unlinked, its bytes still zero, and the encoding goes into
  a new block under the same name, of capacity the maximum of the encoded length and
  twice the given size. In both cases the handle is attached to the block that holds
  the encoding, and every later read, by this handle or by a handle that attaches
  afterwards, decodes to the empty set.
\<close>

theorem init_creates_empty_set:
  assumes "codec_ok P"
    and "SharedMemory_attach name os = Inl FileNotFoundError"
    and "SharedMemory_create name sz os = Inr (s, os1)"
  shows "block os1 (seg_id s) = replicate (nat sz) 0
       \<and> names os1 name = Some (seg_id s)
       \<and> (\<exists>h os'.
             init P name sz os = (Inr h, os')
           \<and> writeData P \<lparr>h_name = name, h_size = sz, h_shm = Some s\<rparr> os1 (SetObj {||})
               = (Inr (), h, os')
           \<and> h_name h = name \<and> attached h os'
           \<and> live_bytes h os' =
               pickle_dumps P (SetObj {||}) @
               replicate (capacity h os' - length (pickle_dumps P (SetObj {||}))) 0
           \<and> readData P h os' = Inr (SetObj {||})
           \<and> (length (pickle_dumps P (SetObj {||})) \<le> nat sz \<longrightarrow>
                 h_shm h = Some s \<and> capacity h os' = nat sz)
           \<and> (nat sz < length (pickle_dumps P (SetObj {||})) \<longrightarrow>
                 h_shm h \<noteq> Some s
               \<and> block os' (seg_id s) = replicate (nat sz) 0
               \<and> names os' name \<noteq> Some (seg_id s)
               \<and> capacity h os' = max (length (pickle_dumps P (SetObj {||}))) (2 * nat sz))
           \<and> (\<forall>sz2. \<exists>h2. init P name sz2 os' = (Inr h2, os')
                  \<and> readData P h2 os' = Inr (SetObj {||})))"
proof -
  let ?e = "pickle_dumps P (SetObj {||})"
  let ?h1 = "\<lparr>h_name = name, h_size = sz, h_shm = Some s\<rparr>"
  from assms(2) have free: "names os name = None"
    by (simp add: SharedMemory_attach_def split: option.splits)
  from assms(3) have pos: "0 < sz"
    by (simp add: SharedMemory_create_def split: if_splits)
  from create_fresh [OF free pos] assms(3)
  have s: "s = \<lparr>seg_id = length (segs os), mapped = True\<rparr>"
    and os1: "os1 = os\<lparr>segs := segs os @ [replicate (nat sz) 0],
                       names := (names os)(name \<mapsto> length (segs os))\<rparr>"
    by simp_all
  have zero: "block os1 (seg_id s) = replicate (nat sz) 0"
    by (simp add: s os1 block_def)
  have bound: "names os1 name = Some (seg_id s)"
    by (simp add: s os1)
  have att1: "attached ?h1 os1"
    by (simp add: attached_def s os1)
  have cap1: "capacity ?h1 os1 = nat sz"
    by (simp add: capacity_def shm_size_def zero)
  have hs: "h_shm ?h1 = Some s" by simp
  have "\<exists>h os'. writeData P ?h1 os1 (SetObj {||}) = (Inr (), h, os')
          \<and> h_name h = name \<and> attached h os'
          \<and> live_bytes h os' = ?e @ replicate (capacity h os' - length ?e) 0
          \<and> readData P h os' = Inr (SetObj {||})
          \<and> (length ?e \<le> nat sz \<longrightarrow> h_shm h = Some s \<and> capacity h os' = nat sz)
          \<and> (nat sz < length ?e \<longrightarrow>
                h_shm h \<noteq> Some s \<and> block os' (seg_id s) = replicate (nat sz) 0
              \<and> names os' name \<noteq> Some (seg_id s)
              \<and> capacity h os' = max (length ?e) (2 * nat sz))"
  proof (cases "length ?e \<le> nat sz")
    case True
    define os' where "os' = os1\<lparr>segs := (segs os1)[seg_id s :=
                   ?e @ replicate (shm_size s os1 - length ?e) 0]\<rparr>"
    have m: "mapped s" and i: "seg_id s < length (segs os1)"
      by (simp_all add: s os1)
    have sz1: "shm_size s os1 = nat sz"
      by (simp add: shm_size_def zero)
    from True have fit: "length ?e \<le> shm_size s os1" by (simp add: sz1)
    note f = writeData_fits_open [OF assms(1) hs m i fit, folded os'_def]
    have cap: "capacity ?h1 os' = nat sz"
      by (simp add: capacity_def f(4) sz1)
    have lb: "live_bytes ?h1 os' = ?e @ replicate (capacity ?h1 os' - length ?e) 0"
      by (simp add: live_bytes_def f(3) cap sz1)
    have att: "attached ?h1 os'"
      using att1 by (simp add: attached_def f(5,6))
    show ?thesis
      using f(1,2) cap lb att True by auto
  next
    case False
    then have big: "capacity ?h1 os1 < length ?e" by (simp add: cap1)
    from writeData_grows_attached [OF assms(1) att1 big]
    obtain h os' where g: "writeData P ?h1 os1 (SetObj {||}) = (Inr (), h, os')"
        "h_name h = h_name ?h1" "attached h os'"
        "capacity h os' = max (length ?e) (2 * capacity ?h1 os1)"
        "live_bytes h os' = ?e @ replicate (capacity h os' - length ?e) 0"
        "readData P h os' = Inr (SetObj {||})"
        "h_shm h = Some \<lparr>seg_id = length (segs os1), mapped = True\<rparr>"
        "\<forall>i < length (segs os1). block os' i = block os1 i"
      by blast
    have i: "seg_id s < length (segs os1)" by (simp add: s os1)
    have ne: "h_shm h \<noteq> Some s"
      using g(7) by (simp add: s os1)
    have blk: "block os' (seg_id s) = replicate (nat sz) 0"
      using g(8) i zero by simp
    have nb: "names os' name \<noteq> Some (seg_id s)"
      using g(2,3,7) by (auto simp: attached_def s os1)
    show ?thesis
      using g(1-6) ne blk nb False cap1 by auto
  qed
  then obtain h os' where w: "writeData P ?h1 os1 (SetObj {||}) = (Inr (), h, os')"
      "h_name h = name" "attached h os'"
      "live_bytes h os' = ?e @ replicate (capacity h os' - length ?e) 0"
      "readData P h os' = Inr (SetObj {||})"
      "length ?e \<le> nat sz \<longrightarrow> h_shm h = Some s \<and> capacity h os' = nat sz"
      "nat sz < length ?e \<longrightarrow>
                h_shm h \<noteq> Some s \<and> block os' (seg_id s) = replicate (nat sz) 0
              \<and> names os' name \<noteq> Some (seg_id s)
              \<and> capacity h os' = max (length ?e) (2 * nat sz)"
    by blast
  have ini: "init P name sz os = (Inr h, os')"
    using assms(2,3) w(1) by (simp add: init_def init_raced_def)
  have later: "\<exists>h2. init P name sz2 os' = (Inr h2, os') \<and> readData P h2 os' = Inr (SetObj {||})"
    for sz2
    using late_attacher [OF w(3,5), of sz2] w(2) by auto
  show ?thesis
    using zero bound ini w later by blast
qed

theorem init_creates_empty_set_witness:
  "codec_ok toy
   \<and> SharedMemory_attach ''s'' empty_os = Inl FileNotFoundError
   \<and> (\<exists>s os1. SharedMemory_create ''s'' 8 empty_os = Inr (s, os1))
   \<and> (\<exists>s os1. SharedMemory_create ''s'' 1 empty_os = Inr (s, os1))
   \<and> (\<exists>h os'. init toy ''s'' 8 empty_os = (Inr h, os')
         \<and> attached h os' \<and> capacity h os' = 8
         \<and> live_bytes h os' = [0x80, 0x2E, 0, 0, 0, 0, 0, 0]
         \<and> readData toy h os' = Inr (SetObj {||}))
   \<and> (\<exists>h os'. init toy ''s'' 1 empty_os = (Inr h, os')
         \<and> attached h os' \<and> capacity h os' = 2
         \<and> live_bytes h os' = [0x80, 0x2E]
         \<and> block os' 0 = [0]
         \<and> readData toy h os' = Inr (SetObj {||}))"
proof -
  let ?e = "pickle_dumps toy (SetObj {||})"
  have a: "codec_ok toy" by (rule toy_ok)
  have b: "SharedMemory_attach ''s'' empty_os = Inl FileNotFoundError" by code_simp
  have f: "names empty_os ''s'' = None" by code_simp
  obtain s8 os8 where c8: "SharedMemory_create ''s'' 8 empty_os = Inr (s8, os8)"
    using create_fresh [OF f, of 8] by simp
  obtain s1 os1 where c1: "SharedMemory_create ''s'' 1 empty_os = Inr (s1, os1)"
    using create_fresh [OF f, of 1] by simp
  have id1: "seg_id s1 = 0"
    using c1 create_fresh [OF f, of 1] by (simp add: empty_os_def)
  have fit8: "length ?e \<le> nat 8" and big1: "nat 1 < length ?e" by code_simp+
  have v8: "?e @ replicate (nat 8 - length ?e) 0 = [0x80, 0x2E, 0, 0, 0, 0, 0, 0]"
    and v1: "?e @ replicate (max (length ?e) (2 * nat 1) - length ?e) 0 = [0x80, 0x2E]"
    and m1: "max (length ?e) (2 * nat 1) = 2" and n8: "nat 8 = 8"
    and z1: "replicate (nat 1) (0::byte) = [0]"
    by code_simp+
  from init_creates_empty_set [OF a b c8] fit8
  obtain h os' where w8: "init toy ''s'' 8 empty_os = (Inr h, os')" "attached h os'"
      "live_bytes h os' = ?e @ replicate (capacity h os' - length ?e) 0"
      "readData toy h os' = Inr (SetObj {||})" "capacity h os' = nat 8"
    by blast
  have r8: "\<exists>h os'. init toy ''s'' 8 empty_os = (Inr h, os')
         \<and> attached h os' \<and> capacity h os' = 8
         \<and> live_bytes h os' = [0x80, 0x2E, 0, 0, 0, 0, 0, 0]
         \<and> readData toy h os' = Inr (SetObj {||})"
    using w8 v8 n8 by (intro exI [of _ h] exI [of _ os']) (simp only: simp_thms)
  from init_creates_empty_set [OF a b c1] big1
  obtain k ks where w1: "init toy ''s'' 1 empty_os = (Inr k, ks)" "attached k ks"
      "live_bytes k ks = ?e @ replicate (capacity k ks - length ?e) 0"
      "readData toy k ks = Inr (SetObj {||})"
      "capacity k ks = max (length ?e) (2 * nat 1)"
      "block ks (seg_id s1) = replicate (nat 1) 0"
    by blast
  have r1: "\<exists>h os'. init toy ''s'' 1 empty_os = (Inr h, os')
         \<and> attached h os' \<and> capacity h os' = 2
         \<and> live_bytes h os' = [0x80, 0x2E]
         \<and> block os' 0 = [0]
         \<and> readData toy h os' = Inr (SetObj {||})"
    using w1 v1 m1 z1 id1 by (intro exI [of _ k] exI [of _ ks]) (simp only: simp_thms)
  show ?thesis
    using a b c8 c1 r8 r1 by blast
qed

subsection \<open>Payloads that fail to decode\<close>











subsection \<open>Every block stays decodable\<close>

lemma seg_valid_padded:
  assumes "codec_ok P"
  shows "seg_valid P (pickle_dumps P (SetObj v) @ replicate n 0)"
proof -
  let ?enc = "pickle_dumps P (SetObj v)"
  from assms have "?enc \<noteq> []" "last ?enc \<noteq> 0" "pickle_loads P ?enc = Inr (SetObj v)"
    by (simp_all add: codec_ok_def)
  then show ?thesis
    by (simp add: seg_valid_def decodes_to_set_def rstrip0_padded)
qed

lemma seg_valid_zeros: "seg_valid P (replicate n 0)"
  by (simp add: seg_valid_def rstrip0_zeros)

lemma list_all_update:
  "list_all Q xs \<Longrightarrow> Q b \<Longrightarrow> list_all Q (xs[i := b])"
  by (induction xs arbitrary: i) (auto split: nat.splits)

lemma store_buf_valid:
  assumes "store_valid P os" and "seg_valid P (enc @ replicate (shm_size s os - length enc) 0)"
  shows "store_valid P (snd (snd (store_buf h os s enc)))"
  using assms by (simp add: store_buf_def store_valid_def list_all_update)

lemma writeData_valid:
  assumes "codec_ok P" and "store_valid P os"
  shows "store_valid P (snd (snd (writeData P h os (SetObj v))))"
proof (cases "h_shm h")
  case None
  then show ?thesis using assms(2) by (simp add: writeData_def)
next
  case (Some s)
  note hs = this
  let ?enc = "pickle_dumps P (SetObj v)"
  show ?thesis
  proof (cases "shm_size s os < length ?enc")
    case False
    then have "writeData P h os (SetObj v) = store_buf h os s ?enc"
      using hs by (simp add: writeData_def Let_def)
    then show ?thesis
      using assms by (simp add: store_buf_valid seg_valid_padded)
  next
    case True
    note big = this
    show ?thesis
    proof (cases "names os (h_name h) = None")
      case True
      then show ?thesis
        using hs big assms(2) by (simp add: writeData_def Let_def shm_unlink_def)
    next
      case False
      from writeData_grows [OF hs False big]
      show ?thesis
        using assms by (simp add: store_valid_def seg_valid_padded)
    qed
  qed
qed

lemma readData_valid:
  assumes "store_valid P os"
  shows "(\<exists>S. readData P h os = Inr (SetObj S)) \<or> (\<exists>e. readData P h os = Inl e)"
proof (cases "h_shm h")
  case None
  then show ?thesis by (simp add: readData_def)
next
  case (Some s)
  show ?thesis
  proof (cases "mapped s")
    case False
    then show ?thesis using Some by (simp add: readData_def)
  next
    case True
    have "seg_valid P (block os (seg_id s))"
    proof (cases "seg_id s < length (segs os)")
      case True
      then have "segs os ! seg_id s \<in> set (segs os)" by simp
      with assms have "seg_valid P (segs os ! seg_id s)"
        by (simp add: store_valid_def list_all_iff)
      then show ?thesis using True by (simp add: block_def)
    next
      case False
      then show ?thesis by (simp add: block_def seg_valid_def rstrip0_Nil)
    qed
    then show ?thesis
      using Some True
      by (auto simp: readData_def Let_def seg_valid_def decodes_to_set_def
          split: sum.splits py_obj.splits)
  qed
qed

lemma mutating_valid:
  assumes "codec_ok P" and "store_valid P os"
  shows "store_valid P (snd (snd
           (case readData P h os of
              Inl e \<Rightarrow> (Inl e, h, os)
            | Inr data \<Rightarrow>
                (case py_mutate P m data of
                   Inl e \<Rightarrow> (Inl e, h, os)
                 | Inr data' \<Rightarrow> writeData P h os data'))))"
proof -
  from readData_valid [OF assms(2), of h] show ?thesis
  proof (elim disjE exE)
    fix S assume rd: "readData P h os = Inr (SetObj S)"
    show ?thesis
    proof (cases "set_mutate m S")
      case (Inl e)
      then show ?thesis using rd assms(2) by (simp add: py_mutate_def)
    next
      case (Inr S')
      then show ?thesis
        using rd writeData_valid [OF assms, of h S'] by (simp add: py_mutate_def)
    qed
  next
    fix e assume "readData P h os = Inl e"
    then show ?thesis using assms(2) by simp
  qed
qed

lemma pop_valid:
  assumes "codec_ok P" and "store_valid P os"
  shows "store_valid P (snd (snd (pop P pick h os)))"
proof -
  from readData_valid [OF assms(2), of h] show ?thesis
  proof (elim disjE exE)
    fix e assume "readData P h os = Inl e"
    then show ?thesis using assms(2) by (simp add: pop_def)
  next
    fix S assume rd: "readData P h os = Inr (SetObj S)"
    show ?thesis
    proof (cases "S = {||}")
      case True
      then show ?thesis using rd assms(2) by (simp add: pop_def py_truth_def)
    next
      case False
      obtain r h' os' where w: "writeData P h os (SetObj (S |-| {|pick S|})) = (r, h', os')"
        by (cases "writeData P h os (SetObj (S |-| {|pick S|}))") auto
      from writeData_valid [OF assms, of h "S |-| {|pick S|}"] w
      have "store_valid P os'" by simp
      moreover have "snd (snd (pop P pick h os)) = os'"
        using rd False w by (cases r) (simp_all add: pop_def py_truth_def py_pop_def)
      ultimately show ?thesis by simp
    qed
  qed
qed

lemma returning_state: "snd (snd (returning f out)) = snd (snd out)"
  by (simp add: returning_def split: prod.splits)

lemma reading_state: "snd (snd (reading f h os r)) = os"
  by (simp add: reading_def)

lemma comparing_state: "snd (snd (comparing h os r)) = os"
  by (simp add: comparing_def)

lemma call_valid:
  assumes "codec_ok P" and "store_valid P os"
  shows "store_valid P (snd (snd (call P pick h os req)))"
proof (cases req)
  case (CallAdd x)
  then show ?thesis
    using mutating_valid [OF assms] by (simp add: returning_state add_def)
next
  case (CallRemove x)
  then show ?thesis
    using mutating_valid [OF assms] by (simp add: returning_state remove_def)
next
  case (CallDiscard x)
  then show ?thesis
    using mutating_valid [OF assms] by (simp add: returning_state discard_def)
next
  case CallPop
  then show ?thesis
    using pop_valid [OF assms] by (simp add: returning_state)
next
  case CallClear
  then show ?thesis
    using writeData_valid [OF assms] by (simp add: returning_state clear_def)
next
  case (CallUpdate others)
  then show ?thesis
    using mutating_valid [OF assms] by (simp add: returning_state update_def)
next
  case (CallIntersectionUpdate others)
  then show ?thesis
    using mutating_valid [OF assms] by (simp add: returning_state intersectionUpdate_def)
next
  case (CallDifferenceUpdate others)
  then show ?thesis
    using mutating_valid [OF assms] by (simp add: returning_state differenceUpdate_def)
next
  case (CallSymmetricDifferenceUpdate other)
  then show ?thesis
    using mutating_valid [OF assms]
    by (simp add: returning_state symmetricDifferenceUpdate_def)
next
  case CallClose
  then show ?thesis
    using assms by (simp add: returning_state close_def store_valid_def split: option.splits)
next
  case CallUnlink
  then show ?thesis
    using assms
    by (simp add: returning_state unlink_def shm_unlink_def store_valid_def split: option.splits)
qed (use assms in \<open>simp_all add: reading_state comparing_state\<close>)

lemma init_valid:
  assumes "codec_ok P" and "store_valid P os"
  shows "store_valid P (snd (init P name sz os))"
proof (cases "names os name")
  case (Some sid)
  then show ?thesis using assms(2) by (simp add: init_attaches)
next
  case None
  show ?thesis
  proof (cases "0 < sz")
    case False
    then show ?thesis
      using None assms(2)
      by (simp add: init_def init_raced_def SharedMemory_attach_def SharedMemory_create_def)
  next
    case True
    let ?s = "\<lparr>seg_id = length (segs os), mapped = True\<rparr>"
    let ?os1 = "os\<lparr>segs := segs os @ [replicate (nat sz) 0],
                   names := (names os)(name \<mapsto> length (segs os))\<rparr>"
    have v1: "store_valid P ?os1"
      using assms(2) by (simp add: store_valid_def seg_valid_zeros)
    have "snd (init P name sz os)
            = snd (snd (writeData P \<lparr>h_name = name, h_size = sz, h_shm = Some ?s\<rparr> ?os1
                          (SetObj {||})))"
      using None True
      by (simp add: init_def init_raced_def SharedMemory_attach_def create_fresh
          split: prod.splits sum.splits)
    then show ?thesis
      using writeData_valid [OF assms(1) v1] by simp
  qed
qed

text \<open>
  Claim C3. After every public operation, mutating or read-only, and after the
  constructor, every block decodes to a set value or, stripped of its zero bytes, is
  empty and reads as the empty set: the predicate \<open>store_valid\<close> on the shared-memory
  state is preserved by every operation, whatever it returns or raises.
\<close>

theorem every_operation_keeps_blocks_valid:
  assumes "codec_ok P" and "store_valid P os"
  shows "store_valid P (snd (snd (call P pick h os req)))
       \<and> store_valid P (snd (init P name sz os))"
  using assms by (simp add: call_valid init_valid)

theorem every_operation_keeps_blocks_valid_witness:
  "codec_ok toy \<and> store_valid toy ex_os3
   \<and> store_valid toy (snd (snd (call toy toy_pick ex_handle ex_os3 (CallAdd 9))))
   \<and> store_valid toy (snd (snd (call toy toy_pick ex_handle ex_os3 CallPop)))
   \<and> store_valid toy (snd (init toy ''t'' 4 ex_os3))"
proof -
  have a: "codec_ok toy" by (rule toy_ok)
  have b: "store_valid toy ex_os3" by code_simp
  from every_operation_keeps_blocks_valid [OF a b, of toy_pick ex_handle "CallAdd 9" "''t''" 4]
    every_operation_keeps_blocks_valid [OF a b, of toy_pick ex_handle CallPop "''t''" 4]
  show ?thesis using a b by simp
qed

subsection \<open>The constructor under a race\<close>

text \<open>
  Claim C6 says that a constructor whose attach fails with not-found and whose create
  then fails with already-exists retries the attach and succeeds. It does not: on the
  empty namespace, with another constructor for the same name completing between the
  two calls, the create raises \<^verbatim>\<open>FileExistsError\<close> and the constructor ends with it,
  although an attach at that point would succeed.
\<close>

theorem init_race_counterexample:
  "SharedMemory_attach ''s'' empty_os = Inl FileNotFoundError
   \<and> SharedMemory_create ''s'' 8 (winner empty_os) = Inl FileExistsError
   \<and> fst (init_raced winner toy ''s'' 8 empty_os) = Inl FileExistsError
   \<and> fst (init toy ''s'' 8 (winner empty_os)) =
       Inr \<lparr>h_name = ''s'', h_size = 8, h_shm = Some \<lparr>seg_id = 0, mapped = True\<rparr>\<rparr>"
proof -
  have a: "SharedMemory_attach ''s'' empty_os = Inl FileNotFoundError"
    by code_simp
  have n: "names (winner empty_os) ''s'' = Some 0"
    by code_simp
  have b: "SharedMemory_create ''s'' 8 (winner empty_os) = Inl FileExistsError"
    using n by (simp add: SharedMemory_create_def)
  have c: "fst (init_raced winner toy ''s'' 8 empty_os) = Inl FileExistsError"
    by code_simp
  have d: "fst (init toy ''s'' 8 (winner empty_os)) =
       Inr \<lparr>h_name = ''s'', h_size = 8, h_shm = Some \<lparr>seg_id = 0, mapped = True\<rparr>\<rparr>"
    by code_simp
  show ?thesis using a b c d by simp
qed

text \<open>
  Claim C6, amended. When the attach fails with not-found and the create then fails
  because the name exists, the constructor does not retry: it ends with the
  \<^verbatim>\<open>FileExistsError\<close> of the create, and the shared-memory state is as the other
  processes left it. When the create fails for another reason (a size that is not
  positive), it ends with that error, \<^verbatim>\<open>ValueError\<close>, unchanged.
\<close>

theorem init_race_propagates:
  assumes "names os name = None"
  shows "(names (env os) name \<noteq> None \<and> 0 < sz \<longrightarrow>
            init_raced env P name sz os = (Inl FileExistsError, env os))
       \<and> (sz \<le> 0 \<longrightarrow> init_raced env P name sz os = (Inl ValueError, env os))"
  using assms
  by (auto simp: init_raced_def SharedMemory_attach_def SharedMemory_create_def)

theorem init_race_propagates_witness:
  "names empty_os ''s'' = None
   \<and> names (winner empty_os) ''s'' \<noteq> None \<and> (0::int) < 8 \<and> (0::int) \<le> 0
   \<and> init_raced winner toy ''s'' 8 empty_os = (Inl FileExistsError, winner empty_os)
   \<and> init_raced winner toy ''s'' 0 empty_os = (Inl ValueError, winner empty_os)"
proof -
  have a: "names empty_os ''s'' = None" by code_simp
  have b: "names (winner empty_os) ''s'' \<noteq> None" by code_simp
  from init_race_propagates [OF a, of winner 8 toy] init_race_propagates [OF a, of winner 0 toy]
  show ?thesis using a b by simp
qed

subsection \<open>Lock order of the comparisons\<close>















end
